theory Spec2Isabelle
  imports Main
begin

section \<open>ParsedAST.cpp: building the AST of one file on top of a preamble\<close>

text \<open>
  A shallow embedding of clangd's \<^verbatim>\<open>ParsedAST.cpp\<close>. The functions of that file are
  translated one by one: \<^verbatim>\<open>DeclTrackingASTConsumer::HandleTopLevelDecl\<close>,
  \<^verbatim>\<open>ReplayPreamble::attach\<close>, \<^verbatim>\<open>FileChanged\<close> and \<^verbatim>\<open>replay\<close>, the level adjuster
  installed on \<^verbatim>\<open>ASTDiags\<close>, \<^verbatim>\<open>ParsedAST::build\<close> and \<^verbatim>\<open>buildAST\<close>.

  Everything the file calls but does not define (clang's frontend, lexer, file manager and
  source manager, clang-tidy, the virtual file system) is a parameter of the model: a field
  of a record that holds what the collaborator answers. No theorem below assumes anything
  about those answers beyond what its statement says.

  Effects are explicit. A function that logs returns its log lines; a callback that notifies
  listeners returns the notifications in the order it delivers them; an \<^verbatim>\<open>assert\<close> of the
  source that can fail on the data it is given is the outcome \<open>AssertionFailed\<close>.
\<close>

subsection \<open>Outcomes and log lines\<close>

datatype 'a Outcome = AssertionFailed | Returned 'a

text \<open>
  The three calls of \<^verbatim>\<open>log(...)\<close> in the file, each with the values it formats:
  \<^item> \<open>BeginSourceFileFailed f\<close>: "BeginSourceFile() failed when building AST for {0}",
    with \<^verbatim>\<open>MainInput.getFile()\<close>;
  \<^item> \<open>ExecuteFailed f e\<close>: "Execute() failed when building AST for {0}: {1}", with
    \<^verbatim>\<open>MainInput.getFile()\<close> and the text of the error;
  \<^item> \<open>CouldntSetWorkingDirectory\<close>: "Couldn't set working directory when building the
    preamble.".
\<close>

datatype LogEntry =
    BeginSourceFileFailed string
  | ExecuteFailed string string
  | CouldntSetWorkingDirectory

subsection \<open>Diagnostics\<close>

text \<open>
  Modelled from the spec: \<^verbatim>\<open>DiagnosticsEngine::Level\<close> is declared in clang, not in this
  file; the levels are the ones the spec's data model lists.
\<close>

datatype Level = Ignored | Note | Warning | Error | Fatal

type_synonym SourceLocation = nat

text \<open>
  \<^verbatim>\<open>clang::Diagnostic\<close>, as far as this file and its diagnostic consumers read it.
  \<open>UnresolvedSymbol\<close> is the name an unresolved-symbol diagnostic is about (none for any
  other diagnostic).
\<close>

record DiagnosticInfo =
  getID :: nat
  hasSourceManager :: bool
  getLocation :: SourceLocation
  getText :: string
  UnresolvedSymbol :: "string option"

text \<open>\<^verbatim>\<open>tidy::ClangTidyContext\<close>: the two queries the level adjuster makes.\<close>

record ClangTidyContext =
  getCheckName :: "nat \<Rightarrow> string"
  treatAsError :: "string \<Rightarrow> bool"

subsection \<open>Declarations\<close>

text \<open>
  The dynamic class of a \<^verbatim>\<open>Decl\<close>, as far as \<^verbatim>\<open>dyn_cast<NamedDecl>\<close> and
  \<^verbatim>\<open>isa<ObjCMethodDecl>\<close> tell classes apart: an \<^verbatim>\<open>ObjCMethodDecl\<close> is a
  \<^verbatim>\<open>NamedDecl\<close>.
\<close>

datatype DeclClass = ObjCMethodDecl | OtherNamedDecl | UnnamedDecl

record Decl =
  declClass :: DeclClass
  declLocation :: SourceLocation
  declName :: string

definition isa_NamedDecl :: "Decl \<Rightarrow> bool" where
  "isa_NamedDecl D = (declClass D \<noteq> UnnamedDecl)"

definition isa_ObjCMethodDecl :: "Decl \<Rightarrow> bool" where
  "isa_ObjCMethodDecl D = (declClass D = ObjCMethodDecl)"

text \<open>
  The free functions of clangd and clang-tidy that this file calls:
  \<^verbatim>\<open>isInsideMainFile(Loc, SM)\<close> (SourceCode.h), \<^verbatim>\<open>isImplicitTemplateInstantiation(ND)\<close>
  (AST.h) and \<^verbatim>\<open>tidy::shouldSuppressDiagnostic(Level, Info, Context, CheckMacroExpansion)\<close>.
  One source manager serves a build, so it is not an argument here.
\<close>

record Helpers =
  isInsideMainFile :: "SourceLocation \<Rightarrow> bool"
  isImplicitTemplateInstantiation :: "Decl \<Rightarrow> bool"
  shouldSuppressDiagnostic :: "Level \<Rightarrow> DiagnosticInfo \<Rightarrow> ClangTidyContext \<Rightarrow> bool \<Rightarrow> bool"

subsection \<open>DeclTrackingASTConsumer\<close>

text \<open>
  \<^verbatim>\<open>HandleTopLevelDecl(DG)\<close>: the loop over the group, with its three \<^verbatim>\<open>continue\<close>s in
  the order of the source; \<open>TopLevelDecls\<close> is the vector the consumer appends to. The
  function's own result is always \<^verbatim>\<open>true\<close> and is left out.
\<close>

fun HandleTopLevelDecl :: "Helpers \<Rightarrow> Decl list \<Rightarrow> Decl list \<Rightarrow> Decl list" where
  "HandleTopLevelDecl H [] TopLevelDecls = TopLevelDecls"
| "HandleTopLevelDecl H (D # DG) TopLevelDecls =
     (if \<not> isInsideMainFile H (declLocation D) then HandleTopLevelDecl H DG TopLevelDecls
      else if isa_NamedDecl D \<and> isImplicitTemplateInstantiation H D
        then HandleTopLevelDecl H DG TopLevelDecls
      else if isa_ObjCMethodDecl D then HandleTopLevelDecl H DG TopLevelDecls
      else HandleTopLevelDecl H DG (TopLevelDecls @ [D]))"

subsection \<open>The level adjuster\<close>

text \<open>
  The lambda given to \<^verbatim>\<open>ASTDiags.setLevelAdjuster\<close>. \<open>CTContext\<close> is the
  \<^verbatim>\<open>llvm::Optional<tidy::ClangTidyContext>\<close> it captures by reference. The last argument
  of \<open>shouldSuppressDiagnostic\<close> is \<^verbatim>\<open>CheckMacroExpansion = false\<close>.
\<close>

definition LevelAdjuster ::
  "Helpers \<Rightarrow> ClangTidyContext option \<Rightarrow> Level \<Rightarrow> DiagnosticInfo \<Rightarrow> Level" where
  "LevelAdjuster H CTContext DiagLevel Info =
     (case CTContext of
        None \<Rightarrow> DiagLevel
      | Some Ctx \<Rightarrow>
          (let CheckName = getCheckName Ctx (getID Info);
               IsClangTidyDiag = (CheckName \<noteq> [])
           in if IsClangTidyDiag then
                (if DiagLevel = Warning \<and> treatAsError Ctx CheckName then Error
                 else
                   (let IsInsideMainFile =
                          (hasSourceManager Info \<and> isInsideMainFile H (getLocation Info))
                    in if IsInsideMainFile \<and> shouldSuppressDiagnostic H DiagLevel Info Ctx False
                       then Ignored
                       else DiagLevel))
              else DiagLevel))"

subsection \<open>ReplayPreamble\<close>

text \<open>
  Modelled from the spec: \<^verbatim>\<open>SrcMgr::CharacteristicKind\<close> is clang's; the spec's
  file-kind tag is system or user.
\<close>

datatype CharacteristicKind = C_User | C_System

text \<open>\<^verbatim>\<open>Inclusion\<close> (Headers.h): one \<^verbatim>\<open>#include\<close> of the main file, as recorded.\<close>

record Inclusion =
  Written :: string
  Resolved :: string
  HashOffset :: nat
  FileKind :: CharacteristicKind

record IncludeStructure =
  MainFileIncludes :: "Inclusion list"

datatype TokenKind = tok_hash | tok_raw_identifier | tok_identifier | tok_header_name | tok_unknown

record IdentifierInfo =
  getIdentName :: string
  getTokenID :: TokenKind

text \<open>
  A \<^verbatim>\<open>Token\<close>: \<open>rawText\<close> is the text a raw identifier refers to.
  \<^verbatim>\<open>Token::getRawIdentifier()\<close> (clang's Token.h, which is not among the sources)
  asserts \<^verbatim>\<open>is(tok::raw_identifier)\<close> before it returns that text.
\<close>

record Token =
  getKind :: TokenKind
  getTokLocation :: SourceLocation
  getEndLoc :: SourceLocation
  rawText :: string
  getIdentifierInfo :: "IdentifierInfo option"

definition getRawIdentifier :: "Token \<Rightarrow> string Outcome" where
  "getRawIdentifier T =
     (if getKind T \<noteq> tok_raw_identifier then AssertionFailed else Returned (rawText T))"

datatype FileEntry = FileEntry string

fun getName :: "FileEntry \<Rightarrow> string" where
  "getName (FileEntry n) = n"

datatype FileChangeReason = EnterFile | ExitFile | SystemHeaderPragma | RenameFile

type_synonym FileID = nat

text \<open>
  What \<^verbatim>\<open>replay\<close> asks of the source manager, the file manager behind it, the
  preprocessor and the raw lexer:
  \<^item> \<open>getFile p\<close>: \<^verbatim>\<open>SM.getFileManager().getFile(p)\<close>, \<open>None\<close> when it gives an error;
  \<^item> \<open>getMainFileData\<close>: \<^verbatim>\<open>SM.getBufferData(SM.getMainFileID())\<close>;
  \<^item> \<open>getBufferIdentifier fid\<close>: \<^verbatim>\<open>SM.getBuffer(fid)->getBufferIdentifier()\<close>;
  \<^item> \<open>lookupIdentifierInfo s\<close>: \<^verbatim>\<open>PP.getIdentifierInfo(s)\<close>;
  \<^item> \<open>RawLexer src off\<close>: the three tokens that a raw \<^verbatim>\<open>Lexer\<close> over \<open>src\<close>, started at
    offset \<open>off\<close>, returns to \<^verbatim>\<open>LexFromRawLexer\<close>, to \<^verbatim>\<open>LexFromRawLexer\<close> in directive
    mode and to \<^verbatim>\<open>LexIncludeFilename\<close>.
\<close>

record SourceManager =
  getFile :: "string \<Rightarrow> FileEntry option"
  getMainFileData :: string
  getBufferIdentifier :: "FileID \<Rightarrow> string"
  lookupIdentifierInfo :: "string \<Rightarrow> IdentifierInfo"
  RawLexer :: "string \<Rightarrow> nat \<Rightarrow> Token \<times> Token \<times> Token"

text \<open>The arguments of \<^verbatim>\<open>PPCallbacks::InclusionDirective\<close>, in its order.\<close>

record InclusionDirectiveArgs =
  HashLoc :: SourceLocation
  IncludeTok :: Token
  FileName :: string
  IsAngled :: bool
  FilenameRange :: "SourceLocation \<times> SourceLocation"
  File :: "FileEntry option"
  SearchPath :: string
  RelativePath :: string
  Imported :: "string option"
  FileType :: CharacteristicKind

text \<open>
  The notifications \<^verbatim>\<open>replay\<close> sends to its delegate: \<^verbatim>\<open>InclusionDirective\<close>,
  \<^verbatim>\<open>FileSkipped(FileEntryRef(Name, File), FilenameTok, FileType)\<close> and
  \<^verbatim>\<open>FileNotFound(FileName, RecoveryPath)\<close>.
\<close>

datatype PPEvent =
    InclusionDirective InclusionDirectiveArgs
  | FileSkipped string FileEntry Token CharacteristicKind
  | FileNotFound string

text \<open>
  \<^verbatim>\<open>StringRef::drop_front()\<close>, \<^verbatim>\<open>drop_back()\<close> and \<^verbatim>\<open>startswith\<close> (LLVM's
  StringRef.h, which is not among the sources). The first two drop one character, and
  assert that there is one: \<^verbatim>\<open>assert(size() >= N)\<close>, where \<open>N\<close> is 1 here.
\<close>

definition drop_front :: "string \<Rightarrow> string Outcome" where
  "drop_front s = (if length s < 1 then AssertionFailed else Returned (drop 1 s))"

definition drop_back :: "string \<Rightarrow> string Outcome" where
  "drop_back s = (if length s < 1 then AssertionFailed else Returned (butlast s))"

definition startswith :: "string \<Rightarrow> string \<Rightarrow> bool" where
  "startswith s p = (take (length p) s = p)"

text \<open>
  The object: the include structure it refers to (read when \<^verbatim>\<open>replay\<close> runs), and
  the source manager. What it asks of its preprocessor and of the lexer it makes from its
  language options is among the answers above; the delegate is whoever receives the
  notifications returned.
\<close>

record ReplayPreamble =
  Includes_ref :: IncludeStructure
  SM_ref :: SourceManager

text \<open>
  The three values the body of the loop computes from the record before it lexes:
  \<open>File\<close>, \<open>WrittenFilename\<close> (\<^verbatim>\<open>StringRef(Inc.Written).drop_front().drop_back()\<close>) and
  \<open>Angled\<close>.
\<close>

definition replayFile :: "SourceManager \<Rightarrow> Inclusion \<Rightarrow> FileEntry option" where
  "replayFile S Inc = (if Resolved Inc \<noteq> [] then getFile S (Resolved Inc) else None)"

definition WrittenFilename :: "Inclusion \<Rightarrow> string Outcome" where
  "WrittenFilename Inc =
     (case drop_front (Written Inc) of
        AssertionFailed \<Rightarrow> AssertionFailed
      | Returned Rest \<Rightarrow> drop_back Rest)"

definition Angled :: "Inclusion \<Rightarrow> bool" where
  "Angled Inc = startswith (Written Inc) ''<''"

text \<open>
  The body of the loop of \<^verbatim>\<open>replay\<close> for one record: how it ends and the notifications
  it delivers. The main file is lexed again at the record's offset; the assertions
  (of \<^verbatim>\<open>drop_front\<close> and \<^verbatim>\<open>drop_back\<close>, on \<^verbatim>\<open>HashTok\<close>, of
  \<^verbatim>\<open>getRawIdentifier\<close>) all come before the first notification of the record, so a
  record that fails one delivers nothing. Otherwise \<^verbatim>\<open>Delegate->InclusionDirective\<close> is
  called, and then \<^verbatim>\<open>FileSkipped\<close> or \<^verbatim>\<open>FileNotFound\<close>.
\<close>

definition replayBody :: "SourceManager \<Rightarrow> Inclusion \<Rightarrow> unit Outcome \<times> PPEvent list" where
  "replayBody S Inc =
     (case WrittenFilename Inc of
        AssertionFailed \<Rightarrow> (AssertionFailed, [])
      | Returned Name \<Rightarrow>
          (case RawLexer S (getMainFileData S) (HashOffset Inc) of
             (HashTok, IncludeTok0, FilenameTok) \<Rightarrow>
               if getKind HashTok \<noteq> tok_hash then (AssertionFailed, [])
               else
                 (case getRawIdentifier IncludeTok0 of
                    AssertionFailed \<Rightarrow> (AssertionFailed, [])
                  | Returned RawId \<Rightarrow>
                      (let II = lookupIdentifierInfo S RawId;
                           IncludeTok1 =
                             IncludeTok0\<lparr>getIdentifierInfo := Some II, getKind := getTokenID II\<rparr>
                       in (Returned (),
                           [InclusionDirective
                              \<lparr>HashLoc = getTokLocation HashTok,
                               IncludeTok = IncludeTok1,
                               FileName = Name,
                               IsAngled = Angled Inc,
                               FilenameRange = (getTokLocation FilenameTok, getEndLoc FilenameTok),
                               File = replayFile S Inc,
                               SearchPath = ''SearchPath'',
                               RelativePath = ''RelPath'',
                               Imported = None,
                               FileType = FileKind Inc\<rparr>,
                            (case replayFile S Inc of
                               Some F \<Rightarrow> FileSkipped (getName F) F FilenameTok (FileKind Inc)
                             | None \<Rightarrow> FileNotFound Name)])))))"

text \<open>
  The loop of \<^verbatim>\<open>replay\<close> over the records. It returns the notifications delivered, in
  order, and how it ended: a failed assertion stops it, and what was delivered for the
  records before stays delivered.
\<close>

fun replayLoop :: "SourceManager \<Rightarrow> Inclusion list \<Rightarrow> unit Outcome \<times> PPEvent list" where
  "replayLoop S [] = (Returned (), [])"
| "replayLoop S (Inc # Incs) =
     (case replayBody S Inc of
        (AssertionFailed, evs) \<Rightarrow> (AssertionFailed, evs)
      | (Returned u, evs) \<Rightarrow>
          (case replayLoop S Incs of (r, evs') \<Rightarrow> (r, evs @ evs')))"

definition replay :: "ReplayPreamble \<Rightarrow> unit Outcome \<times> PPEvent list" where
  "replay R = replayLoop (SM_ref R) (MainFileIncludes (Includes_ref R))"

text \<open>
  \<^verbatim>\<open>FileChanged\<close>: replay when the preprocessor leaves the buffer named
  \<^verbatim>\<open><built-in>\<close>.
\<close>

definition FileChanged ::
  "ReplayPreamble \<Rightarrow> SourceLocation \<Rightarrow> FileChangeReason \<Rightarrow> CharacteristicKind \<Rightarrow> FileID
     \<Rightarrow> unit Outcome \<times> PPEvent list" where
  "FileChanged R Loc Reason Kind PrevFID =
     (if Reason = ExitFile \<and> getBufferIdentifier (SM_ref R) PrevFID = ''<built-in>''
      then replay R else (Returned (), []))"

subsection \<open>The inputs of a build\<close>

record CompilerInvocation =
  DisableFree :: bool
  CommandLine :: "string list"

type_synonym PrecompiledPreamble = string

type_synonym Fix = string

text \<open>\<^verbatim>\<open>Diag\<close> (Diagnostics.h): a diagnostic as clangd stores it.\<close>

record Diag =
  ID :: nat
  Severity :: Level
  Location :: SourceLocation
  Message :: string
  Name :: string
  Fixes :: "Fix list"

type_synonym MainFileMacros = "string list"

type_synonym CanonicalIncludes = "(string \<times> string) list"

text \<open>
  \<^verbatim>\<open>PreambleData\<close> (Preamble.h). \<open>PD_StatCache\<close> tells whether \<^verbatim>\<open>StatCache\<close> is
  non-null.
\<close>

record PreambleData =
  PD_Preamble :: PrecompiledPreamble
  PD_Diags :: "Diag list"
  PD_Includes :: IncludeStructure
  PD_Macros :: MainFileMacros
  PD_CanonIncludes :: CanonicalIncludes
  PD_StatCache :: bool

text \<open>\<^verbatim>\<open>llvm::MemoryBuffer\<close>: its text and its identifier.\<close>

record MemoryBuffer =
  getBuffer :: string
  getBufferName :: string

text \<open>
  A \<^verbatim>\<open>vfs::FileSystem\<close>: what the model keeps of one is its working directory, if it
  has one, and whether it is the stat cache's consuming wrapper.
\<close>

record VFS =
  WorkingDirectory :: "string option"
  ConsumesStatCache :: bool

type_synonym SymbolIndex = "string \<Rightarrow> string list"

record ParseOptions =
  ClangTidyOpts :: string
  SuggestMissingIncludes :: bool

record ParseInputs =
  PI_CompileCommandDirectory :: string
  PI_FS :: VFS
  PI_Contents :: string
  PI_Opts :: ParseOptions
  PI_Index :: "SymbolIndex option"

subsection \<open>The compilation session\<close>

text \<open>
  The preprocessor's callbacks, newest first: \<^verbatim>\<open>addPPCallbacks\<close> chains the new
  callbacks in front of the ones registered before. The empty list is the null pointer.
\<close>

datatype PPCallback =
    CheckPPCallbacks string
  | ReplayPreambleCallbacks
  | CollectIncludeStructure
  | CollectMainFileMacros
  | FrontendPPCallbacks string

text \<open>
  A \<^verbatim>\<open>CompilerInstance\<close>: \<open>MainInputFile\<close> is
  \<^verbatim>\<open>getFrontendOpts().Inputs[0].getFile()\<close>.
\<close>

record CompilerInstance =
  getInvocation :: CompilerInvocation
  MainInputFile :: string
  getSourceManager :: SourceManager
  getPPCallbacks :: "PPCallback list"

definition addPPCallbacks :: "CompilerInstance \<Rightarrow> PPCallback \<Rightarrow> CompilerInstance" where
  "addPPCallbacks Clang C = Clang\<lparr>getPPCallbacks := C # getPPCallbacks Clang\<rparr>"

text \<open>
  \<^verbatim>\<open>ReplayPreamble::attach\<close>: nothing is registered when nobody is listening. The
  delegate of the new callbacks is the chain that was there before.
\<close>

definition attach :: "CompilerInstance \<Rightarrow> CompilerInstance" where
  "attach Clang =
     (let ExistingCallbacks = getPPCallbacks Clang
      in if ExistingCallbacks = [] then Clang
         else addPPCallbacks Clang ReplayPreambleCallbacks)"

text \<open>
  A \<^verbatim>\<open>tidy::ClangTidyCheck\<close>: its answer to \<^verbatim>\<open>isLanguageVersionSupported\<close>, and whether
  its \<^verbatim>\<open>registerPPCallbacks\<close> adds callbacks to the preprocessor.
\<close>

record ClangTidyCheck =
  checkName :: string
  isLanguageVersionSupported :: bool
  addsPPCallbacks :: bool

text \<open>The loop over \<open>CTChecks\<close> in \<^verbatim>\<open>build\<close>.\<close>

fun registerChecks :: "ClangTidyCheck list \<Rightarrow> CompilerInstance \<Rightarrow> CompilerInstance" where
  "registerChecks [] Clang = Clang"
| "registerChecks (Check # Checks) Clang =
     (if \<not> isLanguageVersionSupported Check then registerChecks Checks Clang
      else registerChecks Checks
             (if addsPPCallbacks Check
              then addPPCallbacks Clang (CheckPPCallbacks (checkName Check)) else Clang))"

text \<open>
  What \<^verbatim>\<open>Action->Execute()\<close> calls back while it runs, in the order it does:
  the AST consumer's \<^verbatim>\<open>HandleTopLevelDecl\<close>, the diagnostic consumer \<^verbatim>\<open>ASTDiags\<close>,
  the preprocessor callbacks' \<^verbatim>\<open>FileChanged\<close>, and the collectors of includes, macros,
  IWYU pragmas and tokens that \<^verbatim>\<open>build\<close> registers.
\<close>

datatype ExecEvent =
    TopLevelDeclEv "Decl list"
  | DiagnosticEv Level DiagnosticInfo
  | FileChangedEv SourceLocation FileChangeReason CharacteristicKind FileID
  | IncludeCollectedEv Inclusion
  | MacroCollectedEv string
  | IWYUPragmaEv string string
  | TokenCollectedEv string

text \<open>
  The answers of the collaborators of \<^verbatim>\<open>build\<close> and \<^verbatim>\<open>buildAST\<close>:
  \<^item> \<open>prepareCompilerInstance\<close> (Compiler.h): \<open>None\<close> is the null pointer;
  \<^item> \<open>BeginSourceFile\<close>: \<open>None\<close> when it returns false, else the instance with its
    preprocessor set up;
  \<^item> \<open>earlyDiagnostics\<close>: what \<^verbatim>\<open>ASTDiags\<close>, the diagnostic client of the instance from
    its creation, has stored when \<^verbatim>\<open>BeginSourceFile\<close> returns; the level adjuster and the
    contributor of fixes are installed only after that;
  \<^item> \<open>createContext\<close>, \<open>createChecks\<close>: the clang-tidy context and checks made from the
    options;
  \<^item> \<open>Execute\<close>: the callbacks made while it ran, and its \<^verbatim>\<open>llvm::Error\<close> if it
    returned one;
  \<^item> \<open>matchAST\<close>: the diagnostics the checks' matchers report over the traversal scope;
  \<^item> \<open>addSystemHeadersMapping\<close>: the built-in mapping of system headers;
  \<^item> \<open>getCurrentWorkingDirectory\<close>: \<open>None\<close> when it gives an error;
  \<^item> \<open>setCurrentWorkingDirectory\<close>: the error flag (true on failure) and the file
    system afterwards;
  \<^item> \<open>getConsumingFS\<close>: the stat cache's wrapper around a file system.
\<close>

record Frontend =
  prepareCompilerInstance ::
    "CompilerInvocation \<Rightarrow> PrecompiledPreamble option \<Rightarrow> MemoryBuffer \<Rightarrow> VFS
       \<Rightarrow> CompilerInstance option"
  BeginSourceFile :: "CompilerInstance \<Rightarrow> string \<Rightarrow> CompilerInstance option"
  earlyDiagnostics :: "Diag list"
  createContext :: "string \<Rightarrow> ClangTidyContext"
  createChecks :: "string \<Rightarrow> ClangTidyCheck list"
  Execute :: "CompilerInstance \<Rightarrow> ExecEvent list \<times> string option"
  matchAST :: "Decl list \<Rightarrow> (Level \<times> DiagnosticInfo) list"
  addSystemHeadersMapping :: CanonicalIncludes
  getCurrentWorkingDirectory :: "VFS \<Rightarrow> string option"
  setCurrentWorkingDirectory :: "VFS \<Rightarrow> string \<Rightarrow> bool \<times> VFS"
  getConsumingFS :: "VFS \<Rightarrow> VFS"

subsection \<open>The include fixer\<close>

text \<open>
  Modelled from the spec: \<^verbatim>\<open>IncludeFixer\<close> (IncludeFixer.h) is not among the sources;
  \<^verbatim>\<open>build\<close> only constructs one, with \<^verbatim>\<open>IndexRequestLimit = 5\<close>, and installs its
  \<^verbatim>\<open>fix\<close> as the contributor of fixes. The spec: on a qualifying diagnostic (an unresolved
  symbol) the layer queries the symbol index for candidate declaring headers and attaches a
  fix that inserts the include; it enforces a fixed ceiling on the number of index queries,
  and once the ceiling is exhausted further unresolved-symbol diagnostics are left
  unrepaired rather than queried. \<open>IndexRequests\<close> lists the queries issued, in order;
  \<open>Existing\<close> lists the includes given to \<^verbatim>\<open>Inserter->addExisting\<close>.
\<close>

record IncludeFixer =
  FixerFile :: string
  Existing :: "Inclusion list"
  FixerIndex :: SymbolIndex
  IndexRequestLimit :: nat
  IndexRequestCount :: nat
  IndexRequests :: "string list"

definition IncludeFixer_fix ::
  "IncludeFixer \<Rightarrow> Level \<Rightarrow> DiagnosticInfo \<Rightarrow> Fix list \<times> IncludeFixer" where
  "IncludeFixer_fix F DiagLevel Info =
     (case UnresolvedSymbol Info of
        None \<Rightarrow> ([], F)
      | Some Sym \<Rightarrow>
          if IndexRequestLimit F \<le> IndexRequestCount F then ([], F)
          else (map (\<lambda>Header. ''#include '' @ Header) (FixerIndex F Sym),
                F\<lparr>IndexRequestCount := Suc (IndexRequestCount F),
                  IndexRequests := IndexRequests F @ [Sym]\<rparr>))"

subsection \<open>The state of a build while the frontend runs\<close>

text \<open>
  The locals of \<^verbatim>\<open>build\<close> that the callbacks write to: the action's \<open>TopLevelDecls\<close>,
  the diagnostics stored in \<open>ASTDiags\<close>, \<open>FixIncludes\<close>, the \<open>Includes\<close>, \<open>Macros\<close> and
  \<open>CanonIncludes\<close> being collected, the tokens \<open>CollectTokens\<close> holds, and the
  notifications the replay has delivered to its delegate.
\<close>

record BuildState =
  TopLevelDecls :: "Decl list"
  ASTDiags :: "Diag list"
  FixIncludes :: "IncludeFixer option"
  IncludesVar :: IncludeStructure
  MacrosVar :: MainFileMacros
  CanonIncludesVar :: CanonicalIncludes
  CollectTokens :: "string list"
  Delegated :: "PPEvent list"

text \<open>
  Modelled from the spec: \<^verbatim>\<open>StoreDiags\<close> (Diagnostics.h) is not among the sources. The
  spec's pipeline: every diagnostic emitted during the build has its level adjusted once
  (by the adjuster \<^verbatim>\<open>build\<close> installs), then fixes are attached to it (by the contributor
  \<^verbatim>\<open>build\<close> installs, when it installs one); a diagnostic whose final severity is Ignored
  is still recorded. \<^verbatim>\<open>take\<close> hands the stored diagnostics over, each with the name of
  the check that owns it.
\<close>

definition HandleDiagnostic ::
  "(Level \<Rightarrow> DiagnosticInfo \<Rightarrow> Level) \<Rightarrow> Level \<Rightarrow> DiagnosticInfo \<Rightarrow> BuildState \<Rightarrow> BuildState" where
  "HandleDiagnostic Adjuster DiagLevel Info st =
     (let Lvl = Adjuster DiagLevel Info;
          D = \<lparr>ID = getID Info, Severity = Lvl, Location = getLocation Info,
               Message = getText Info, Name = [], Fixes = []\<rparr>
      in case FixIncludes st of
           None \<Rightarrow> st\<lparr>ASTDiags := ASTDiags st @ [D]\<rparr>
         | Some F \<Rightarrow>
             (case IncludeFixer_fix F Lvl Info of
                (ExtraFixes, F') \<Rightarrow>
                  st\<lparr>ASTDiags := ASTDiags st @ [D\<lparr>Fixes := ExtraFixes\<rparr>],
                     FixIncludes := Some F'\<rparr>))"

definition take_diags :: "ClangTidyContext option \<Rightarrow> Diag list \<Rightarrow> Diag list" where
  "take_diags CTContext Output =
     (case CTContext of
        None \<Rightarrow> Output
      | Some Ctx \<Rightarrow> map (\<lambda>D. D\<lparr>Name := getCheckName Ctx (ID D)\<rparr>) Output)"

text \<open>
  One callback of the frontend, dispatched to the consumer \<^verbatim>\<open>build\<close> registered for
  it. \<^verbatim>\<open>FileChanged\<close> reaches the replay only when \<^verbatim>\<open>attach\<close> registered it; the replay
  reads \<open>Includes\<close> as it is then.
\<close>

fun dispatch ::
  "Helpers \<Rightarrow> (Level \<Rightarrow> DiagnosticInfo \<Rightarrow> Level) \<Rightarrow> CompilerInstance \<Rightarrow> ExecEvent \<Rightarrow> BuildState
     \<Rightarrow> unit Outcome \<times> BuildState" where
  "dispatch H Adjuster Clang (TopLevelDeclEv DG) st =
     (Returned (), st\<lparr>TopLevelDecls := HandleTopLevelDecl H DG (TopLevelDecls st)\<rparr>)"
| "dispatch H Adjuster Clang (DiagnosticEv DiagLevel Info) st =
     (Returned (), HandleDiagnostic Adjuster DiagLevel Info st)"
| "dispatch H Adjuster Clang (FileChangedEv Loc Reason Kind PrevFID) st =
     (if ReplayPreambleCallbacks \<in> set (getPPCallbacks Clang) then
        (case FileChanged \<lparr>Includes_ref = IncludesVar st, SM_ref = getSourceManager Clang\<rparr>
                Loc Reason Kind PrevFID of
           (r, evs) \<Rightarrow> (r, st\<lparr>Delegated := Delegated st @ evs\<rparr>))
      else (Returned (), st))"
| "dispatch H Adjuster Clang (IncludeCollectedEv Inc) st =
     (Returned (),
      st\<lparr>IncludesVar :=
           \<lparr>MainFileIncludes = MainFileIncludes (IncludesVar st) @ [Inc]\<rparr>\<rparr>)"
| "dispatch H Adjuster Clang (MacroCollectedEv M) st =
     (Returned (), st\<lparr>MacrosVar := MacrosVar st @ [M]\<rparr>)"
| "dispatch H Adjuster Clang (IWYUPragmaEv Path Canonical) st =
     (Returned (), st\<lparr>CanonIncludesVar := CanonIncludesVar st @ [(Path, Canonical)]\<rparr>)"
| "dispatch H Adjuster Clang (TokenCollectedEv T) st =
     (Returned (), st\<lparr>CollectTokens := CollectTokens st @ [T]\<rparr>)"

fun runEvents ::
  "Helpers \<Rightarrow> (Level \<Rightarrow> DiagnosticInfo \<Rightarrow> Level) \<Rightarrow> CompilerInstance \<Rightarrow> ExecEvent list
     \<Rightarrow> BuildState \<Rightarrow> unit Outcome \<times> BuildState" where
  "runEvents H Adjuster Clang [] st = (Returned (), st)"
| "runEvents H Adjuster Clang (ev # evs) st =
     (case dispatch H Adjuster Clang ev st of
        (AssertionFailed, st') \<Rightarrow> (AssertionFailed, st')
      | (Returned u, st') \<Rightarrow> runEvents H Adjuster Clang evs st')"

text \<open>The diagnostics of \<^verbatim>\<open>CTFinder.matchAST\<close>, which reach \<open>ASTDiags\<close> one by one.\<close>

fun handleAll ::
  "(Level \<Rightarrow> DiagnosticInfo \<Rightarrow> Level) \<Rightarrow> (Level \<times> DiagnosticInfo) list \<Rightarrow> BuildState \<Rightarrow> BuildState" where
  "handleAll Adjuster [] st = st"
| "handleAll Adjuster ((DiagLevel, Info) # ds) st =
     handleAll Adjuster ds (HandleDiagnostic Adjuster DiagLevel Info st)"

subsection \<open>ParsedAST and its construction\<close>

text \<open>
  The members of \<^verbatim>\<open>ParsedAST\<close> that the constructor fills: \<open>AST_Diags\<close> is \<^verbatim>\<open>Diags\<close>,
  \<open>AST_LocalTopLevelDecls\<close> is \<^verbatim>\<open>LocalTopLevelDecls\<close>, and so on. The action is owned
  too; what it held, its declarations, has been taken from it.
\<close>

record ParsedAST =
  AST_Preamble :: "PreambleData option"
  AST_Clang :: CompilerInstance
  AST_Tokens :: "string list"
  AST_Macros :: MainFileMacros
  AST_Diags :: "Diag list"
  AST_LocalTopLevelDecls :: "Decl list"
  AST_Includes :: IncludeStructure
  AST_CanonIncludes :: CanonicalIncludes

text \<open>
  What a build does besides returning: the lines it logs, the queries its include fixer
  sent to the symbol index, and the notifications the replay delivered.
\<close>

record Effects =
  Log :: "LogEntry list"
  IndexQueries :: "string list"
  Replayed :: "PPEvent list"

definition noEffects :: Effects where
  "noEffects = \<lparr>Log = [], IndexQueries = [], Replayed = []\<rparr>"

definition effectsOf :: "LogEntry list \<Rightarrow> BuildState \<Rightarrow> Effects" where
  "effectsOf lg st =
     \<lparr>Log = lg,
      IndexQueries = (case FixIncludes st of None \<Rightarrow> [] | Some F \<Rightarrow> IndexRequests F),
      Replayed = Delegated st\<rparr>"

text \<open>
  The set-up of \<^verbatim>\<open>build\<close> between \<^verbatim>\<open>BeginSourceFile\<close> and \<^verbatim>\<open>Execute\<close>: the
  clang-tidy checks register their callbacks, then the replay attaches if there is a
  preamble, then the collectors of includes and macros are added.
\<close>

definition setupCallbacks ::
  "ClangTidyCheck list \<Rightarrow> PreambleData option \<Rightarrow> CompilerInstance \<Rightarrow> CompilerInstance" where
  "setupCallbacks CTChecks Preamble Clang =
     (let Clang1 = registerChecks CTChecks Clang;
          Clang2 = (if Preamble \<noteq> None then attach Clang1 else Clang1);
          Clang3 = addPPCallbacks Clang2 CollectIncludeStructure
      in addPPCallbacks Clang3 CollectMainFileMacros)"

text \<open>
  \<open>FixIncludes\<close> as \<^verbatim>\<open>build\<close> sets it up: only when missing includes are to be
  suggested, an index is given and the working directory is known.
\<close>

definition setupFixIncludes ::
  "string \<Rightarrow> PreambleData option \<Rightarrow> SymbolIndex option \<Rightarrow> ParseOptions \<Rightarrow> string option
     \<Rightarrow> IncludeFixer option" where
  "setupFixIncludes Filename Preamble Index Opts BuildDir =
     (case Index of
        None \<Rightarrow> None
      | Some Idx \<Rightarrow>
          if SuggestMissingIncludes Opts \<and> BuildDir \<noteq> None then
            Some \<lparr>FixerFile = Filename,
                  Existing = (case Preamble of
                                None \<Rightarrow> []
                              | Some P \<Rightarrow> MainFileIncludes (PD_Includes P)),
                  FixerIndex = Idx,
                  IndexRequestLimit = 5,
                  IndexRequestCount = 0,
                  IndexRequests = []\<rparr>
          else None)"

text \<open>
  The locals as they are when \<^verbatim>\<open>Execute\<close> starts: what the preamble recorded is the
  baseline of \<open>Includes\<close>, \<open>Macros\<close> and \<open>CanonIncludes\<close>, and \<open>ASTDiags\<close> holds what
  it stored before.
\<close>

definition initialState ::
  "Frontend \<Rightarrow> PreambleData option \<Rightarrow> IncludeFixer option \<Rightarrow> BuildState" where
  "initialState FE Preamble Fixer =
     \<lparr>TopLevelDecls = [],
      ASTDiags = earlyDiagnostics FE,
      FixIncludes = Fixer,
      IncludesVar = (case Preamble of
                       None \<Rightarrow> \<lparr>MainFileIncludes = []\<rparr>
                     | Some P \<Rightarrow> PD_Includes P),
      MacrosVar = (case Preamble of None \<Rightarrow> [] | Some P \<Rightarrow> PD_Macros P),
      CanonIncludesVar = (case Preamble of
                            None \<Rightarrow> addSystemHeadersMapping FE
                          | Some P \<Rightarrow> PD_CanonIncludes P),
      CollectTokens = [],
      Delegated = []\<rparr>"

text \<open>
  The end of \<^verbatim>\<open>build\<close>, from \<^verbatim>\<open>CollectTokens.consume()\<close> on: the matchers run over
  the declarations collected, then the diagnostics are put together and the
  \<^verbatim>\<open>ParsedAST\<close> is constructed.
\<close>

definition assemble ::
  "Frontend \<Rightarrow> (Level \<Rightarrow> DiagnosticInfo \<Rightarrow> Level) \<Rightarrow> ClangTidyContext option \<Rightarrow> Diag list
     \<Rightarrow> PreambleData option \<Rightarrow> CompilerInstance \<Rightarrow> LogEntry list \<Rightarrow> BuildState
     \<Rightarrow> ParsedAST option Outcome \<times> Effects" where
  "assemble FE Adjuster CTContext CompilerInvocationDiags Preamble Clang lg st =
     (let Tokens = CollectTokens st;
          ParsedDecls = TopLevelDecls st;
          st' = handleAll Adjuster (matchAST FE ParsedDecls) st;
          Diags0 = CompilerInvocationDiags;
          Diags1 = (case Preamble of None \<Rightarrow> Diags0 | Some P \<Rightarrow> Diags0 @ PD_Diags P);
          D = take_diags CTContext (ASTDiags st');
          Diags2 = Diags1 @ D
      in (Returned
            (Some \<lparr>AST_Preamble = Preamble, AST_Clang = Clang, AST_Tokens = Tokens,
                   AST_Macros = MacrosVar st', AST_Diags = Diags2,
                   AST_LocalTopLevelDecls = ParsedDecls, AST_Includes = IncludesVar st',
                   AST_CanonIncludes = CanonIncludesVar st'\<rparr>),
          effectsOf lg st'))"

text \<open>
  \<^verbatim>\<open>ParsedAST::build\<close>. \<open>None\<close> is \<^verbatim>\<open>llvm::None\<close>. The two early returns come first,
  in the order of the source; \<^verbatim>\<open>Execute\<close>'s error is logged and nothing else is done
  with it. The trace spans and the debug line of \<^verbatim>\<open>dlog\<close> are left out. So is what the
  preprocessor reports at \<^verbatim>\<open>EndSourceFile\<close>: by then the client of the diagnostics engine
  is an \<^verbatim>\<open>IgnoreDiagnostics\<close>, and nothing of it reaches \<open>ASTDiags\<close>.
\<close>

definition build ::
  "Frontend \<Rightarrow> Helpers \<Rightarrow> CompilerInvocation \<Rightarrow> Diag list \<Rightarrow> PreambleData option \<Rightarrow> MemoryBuffer
     \<Rightarrow> VFS \<Rightarrow> SymbolIndex option \<Rightarrow> ParseOptions \<Rightarrow> ParsedAST option Outcome \<times> Effects" where
  "build FE H CI CompilerInvocationDiags Preamble Buffer Vfs Index Opts =
     (let CI1 = CI\<lparr>DisableFree := False\<rparr>;
          PreamblePCH = map_option PD_Preamble Preamble;
          Filename = getBufferName Buffer
      in case prepareCompilerInstance FE CI1 PreamblePCH Buffer Vfs of
           None \<Rightarrow> (Returned None, noEffects)
         | Some Clang0 \<Rightarrow>
             (let MainInput = MainInputFile Clang0
              in case BeginSourceFile FE Clang0 MainInput of
                   None \<Rightarrow> (Returned None, noEffects\<lparr>Log := [BeginSourceFileFailed MainInput]\<rparr>)
                 | Some Clang1 \<Rightarrow>
                     (let CTContext = Some (createContext FE (ClangTidyOpts Opts));
                          CTChecks = createChecks FE (ClangTidyOpts Opts);
                          Adjuster = LevelAdjuster H CTContext;
                          BuildDir = getCurrentWorkingDirectory FE Vfs;
                          Fixer = setupFixIncludes Filename Preamble Index Opts BuildDir;
                          Clang2 = setupCallbacks CTChecks Preamble Clang1
                      in case Execute FE Clang2 of
                           (Events, Err) \<Rightarrow>
                             (case runEvents H Adjuster Clang2 Events
                                     (initialState FE Preamble Fixer) of
                                (AssertionFailed, st) \<Rightarrow> (AssertionFailed, effectsOf [] st)
                              | (Returned u, st) \<Rightarrow>
                                  assemble FE Adjuster CTContext CompilerInvocationDiags
                                    Preamble Clang2
                                    (case Err of
                                       None \<Rightarrow> []
                                     | Some E \<Rightarrow> [ExecuteFailed MainInput E])
                                    st))))"

text \<open>
  \<^verbatim>\<open>buildAST\<close>: the stat cache's file system when the preamble has one, the working
  directory of the compile command, then \<^verbatim>\<open>ParsedAST::build\<close> on a copy of the contents
  named after the file.
\<close>

definition buildAST ::
  "Frontend \<Rightarrow> Helpers \<Rightarrow> string \<Rightarrow> CompilerInvocation \<Rightarrow> Diag list \<Rightarrow> ParseInputs
     \<Rightarrow> PreambleData option \<Rightarrow> ParsedAST option Outcome \<times> Effects" where
  "buildAST FE H FileNameRef Invocation CompilerInvocationDiags Inputs Preamble =
     (let Vfs0 = PI_FS Inputs;
          Vfs1 = (case Preamble of
                    None \<Rightarrow> Vfs0
                  | Some P \<Rightarrow> if PD_StatCache P then getConsumingFS FE Vfs0 else Vfs0)
      in case setCurrentWorkingDirectory FE Vfs1 (PI_CompileCommandDirectory Inputs) of
           (Failed, Vfs2) \<Rightarrow>
             (case build FE H Invocation CompilerInvocationDiags Preamble
                     \<lparr>getBuffer = PI_Contents Inputs, getBufferName = FileNameRef\<rparr>
                     Vfs2 (PI_Index Inputs) (PI_Opts Inputs) of
                (Result, Eff) \<Rightarrow>
                  (Result,
                   if Failed then Eff\<lparr>Log := CouldntSetWorkingDirectory # Log Eff\<rparr> else Eff)))"

section \<open>Notions used in the proofs\<close>

text \<open>
  \<open>replayOne S Inc\<close>: the notifications the body of the loop delivers for one record.
  \<open>replays S Inc\<close>: the body gets through its assertions for the record.
  \<open>replayFollowUp S Inc\<close>: the notification that follows the inclusion when it does.
\<close>

definition replayOne :: "SourceManager \<Rightarrow> Inclusion \<Rightarrow> PPEvent list" where
  "replayOne S Inc = snd (replayBody S Inc)"

definition replays :: "SourceManager \<Rightarrow> Inclusion \<Rightarrow> bool" where
  "replays S Inc = (fst (replayBody S Inc) = Returned ())"

definition replayFollowUp :: "SourceManager \<Rightarrow> Inclusion \<Rightarrow> PPEvent" where
  "replayFollowUp S Inc =
     (case (if Resolved Inc \<noteq> [] then getFile S (Resolved Inc) else None) of
        None \<Rightarrow> FileNotFound (butlast (drop 1 (Written Inc)))
      | Some F \<Rightarrow>
          FileSkipped (getName F) F
            (snd (snd (RawLexer S (getMainFileData S) (HashOffset Inc)))) (FileKind Inc))"

text \<open>
  \<open>builtinExit S ev\<close>: the callback is a \<^verbatim>\<open>FileChanged\<close> that tells of leaving the
  buffer named \<^verbatim>\<open><built-in>\<close>, the one on which \<^verbatim>\<open>FileChanged\<close> replays.
  \<open>replayedRecords S Incs evs\<close>: the records that are replayed while the callbacks
  \<open>evs\<close> are made, in the order of their replay, when \<open>Incs\<close> are the records
  \<open>Includes\<close> holds at the start: at each such \<^verbatim>\<open>FileChanged\<close>, all the records
  \<open>Includes\<close> holds by then, which are \<open>Incs\<close> and the includes collected since.
\<close>

definition builtinExit :: "SourceManager \<Rightarrow> ExecEvent \<Rightarrow> bool" where
  "builtinExit S ev =
     (case ev of
        FileChangedEv Loc Reason Kind PrevFID \<Rightarrow>
          Reason = ExitFile \<and> getBufferIdentifier S PrevFID = ''<built-in>''
      | _ \<Rightarrow> False)"

fun replayedRecords :: "SourceManager \<Rightarrow> Inclusion list \<Rightarrow> ExecEvent list \<Rightarrow> Inclusion list" where
  "replayedRecords S Incs [] = []"
| "replayedRecords S Incs (ev # evs) =
     (if builtinExit S ev then Incs else []) @
     replayedRecords S (Incs @ [Inc. IncludeCollectedEv Inc \<leftarrow> [ev]]) evs"

text \<open>
  \<open>keeps H D\<close>: the loop of \<^verbatim>\<open>HandleTopLevelDecl\<close> reaches \<^verbatim>\<open>push_back\<close> for \<open>D\<close>, that
  is, none of its three \<^verbatim>\<open>continue\<close>s is taken. \<open>withinBudget st\<close>: the include fixer of
  the state, if there is one, has the limit \<^verbatim>\<open>build\<close> gave it, has counted no more
  requests than that, and has issued as many queries as it has counted.
\<close>

definition keeps :: "Helpers \<Rightarrow> Decl \<Rightarrow> bool" where
  "keeps H D = (isInsideMainFile H (declLocation D) \<and>
     \<not> (isa_NamedDecl D \<and> isImplicitTemplateInstantiation H D) \<and> \<not> isa_ObjCMethodDecl D)"

definition withinBudget :: "BuildState \<Rightarrow> bool" where
  "withinBudget st =
     (case FixIncludes st of
        None \<Rightarrow> True
      | Some F \<Rightarrow> IndexRequestLimit F = 5 \<and> IndexRequestCount F \<le> 5 \<and>
                  length (IndexRequests F) = IndexRequestCount F)"

text \<open>
  \<open>symbolsOf ds\<close>: the names that the unresolved-symbol diagnostics among \<open>ds\<close> are about,
  in order. \<open>queried n syms st\<close>: the state has an include fixer with the limit \<open>n\<close>, and
  the queries it has issued are the first \<open>n\<close> of \<open>syms\<close>.
\<close>

definition symbolsOf :: "(Level \<times> DiagnosticInfo) list \<Rightarrow> string list" where
  "symbolsOf ds =
     concat (map (\<lambda>(L, I). case UnresolvedSymbol I of None \<Rightarrow> [] | Some Sym \<Rightarrow> [Sym]) ds)"

definition queried :: "nat \<Rightarrow> string list \<Rightarrow> BuildState \<Rightarrow> bool" where
  "queried n syms st =
     (case FixIncludes st of
        None \<Rightarrow> False
      | Some F \<Rightarrow> IndexRequestLimit F = n \<and> IndexRequestCount F = length (IndexRequests F) \<and>
                  IndexRequests F = take n syms)"

section \<open>A concrete build\<close>

text \<open>
  One build to evaluate the theorems on. The main file has three includes in its preamble
  region: \<^verbatim>\<open><a.h>\<close>, which still resolves, \<^verbatim>\<open>"b.h"\<close>, which never resolved, and
  \<^verbatim>\<open><c.h>\<close>, whose file is gone. Check R is treated as an error and check S is not;
  lines 3 and 5 carry a suppression comment, and line 8 is covered by one only through a
  macro expansion. The frontend reports four declarations (one in a header, one implicit
  instantiation, one Objective-C method), two check diagnostics and six unresolved names,
  and \<^verbatim>\<open>Execute\<close> ends with an error.
\<close>

definition exMainFile :: string where
  "exMainFile =
     ''#include <a.h> #include '' @ CHR 0x22 # ''b.h'' @ CHR 0x22 # '' #include <c.h> int x;''"

definition exLexer :: "string \<Rightarrow> nat \<Rightarrow> Token \<times> Token \<times> Token" where
  "exLexer Src Off =
     (\<lparr>getKind = (if Off < length Src \<and> Src ! Off = CHR ''#'' then tok_hash else tok_unknown),
       getTokLocation = Off, getEndLoc = Off + 1, rawText = [],
       getIdentifierInfo = None\<rparr>,
      \<lparr>getKind = tok_raw_identifier, getTokLocation = Off + 1, getEndLoc = Off + 8,
       rawText = ''include'', getIdentifierInfo = None\<rparr>,
      \<lparr>getKind = tok_header_name, getTokLocation = Off + 9, getEndLoc = Off + 14,
       rawText = [], getIdentifierInfo = None\<rparr>)"

definition exSM :: SourceManager where
  "exSM =
     \<lparr>getFile = (\<lambda>p. if p = ''/usr/include/a.h'' then Some (FileEntry p) else None),
      getMainFileData = exMainFile,
      getBufferIdentifier = (\<lambda>fid. if fid = 1 then ''<built-in>'' else ''main.cpp''),
      lookupIdentifierInfo = (\<lambda>s. \<lparr>getIdentName = s, getTokenID = tok_identifier\<rparr>),
      RawLexer = exLexer\<rparr>"

definition exIncA :: Inclusion where
  "exIncA = \<lparr>Written = ''<a.h>'', Resolved = ''/usr/include/a.h'', HashOffset = 0,
             FileKind = C_System\<rparr>"

definition exIncB :: Inclusion where
  "exIncB = \<lparr>Written = CHR 0x22 # ''b.h'' @ [CHR 0x22], Resolved = [], HashOffset = 15,
             FileKind = C_User\<rparr>"

definition exIncC :: Inclusion where
  "exIncC = \<lparr>Written = ''<c.h>'', Resolved = ''/gone/c.h'', HashOffset = 30, FileKind = C_User\<rparr>"

definition exReplay :: ReplayPreamble where
  "exReplay = \<lparr>Includes_ref = \<lparr>MainFileIncludes = [exIncA, exIncB, exIncC]\<rparr>, SM_ref = exSM\<rparr>"

definition exCtx :: ClangTidyContext where
  "exCtx =
     \<lparr>getCheckName = (\<lambda>n. if n = 1 then ''R'' else if n = 2 then ''S'' else []),
      treatAsError = (\<lambda>c. c = ''R'')\<rparr>"

definition exH :: Helpers where
  "exH =
     \<lparr>isInsideMainFile = (\<lambda>Loc. Loc < 100),
      isImplicitTemplateInstantiation = (\<lambda>D. declName D = ''f<int>''),
      shouldSuppressDiagnostic =
        (\<lambda>L I C M. getLocation I = 3 \<or> getLocation I = 5 \<or> (M \<and> getLocation I = 8))\<rparr>"

definition exInfoR :: DiagnosticInfo where
  "exInfoR = \<lparr>getID = 1, hasSourceManager = True, getLocation = 3,
              getText = ''flagged by R'', UnresolvedSymbol = None\<rparr>"

definition exInfoS :: DiagnosticInfo where
  "exInfoS = \<lparr>getID = 2, hasSourceManager = True, getLocation = 5,
              getText = ''flagged by S'', UnresolvedSymbol = None\<rparr>"

definition exInfoMacro :: DiagnosticInfo where
  "exInfoMacro = \<lparr>getID = 2, hasSourceManager = True, getLocation = 8,
              getText = ''flagged by S in a macro'', UnresolvedSymbol = None\<rparr>"

definition exInfoHeader :: DiagnosticInfo where
  "exInfoHeader = \<lparr>getID = 2, hasSourceManager = True, getLocation = 205,
              getText = ''flagged by S in a header'', UnresolvedSymbol = None\<rparr>"

definition exInfoUnknown :: DiagnosticInfo where
  "exInfoUnknown = \<lparr>getID = 10, hasSourceManager = True, getLocation = 7,
              getText = ''unknown type name'', UnresolvedSymbol = Some ''Foo''\<rparr>"

definition exDeclX :: Decl where
  "exDeclX = \<lparr>declClass = OtherNamedDecl, declLocation = 45, declName = ''x''\<rparr>"

definition exDeclHeader :: Decl where
  "exDeclHeader = \<lparr>declClass = OtherNamedDecl, declLocation = 200, declName = ''y''\<rparr>"

definition exDeclInst :: Decl where
  "exDeclInst = \<lparr>declClass = OtherNamedDecl, declLocation = 46, declName = ''f<int>''\<rparr>"

definition exDeclObjC :: Decl where
  "exDeclObjC = \<lparr>declClass = ObjCMethodDecl, declLocation = 47, declName = ''m''\<rparr>"

definition exEvents :: "ExecEvent list" where
  "exEvents =
     [FileChangedEv 0 ExitFile C_User 1,
      TokenCollectedEv ''int'',
      TopLevelDeclEv [exDeclHeader, exDeclX, exDeclInst, exDeclObjC],
      DiagnosticEv Warning exInfoR,
      DiagnosticEv Warning exInfoS,
      DiagnosticEv Error exInfoUnknown,
      DiagnosticEv Error exInfoUnknown,
      DiagnosticEv Error exInfoUnknown,
      DiagnosticEv Error exInfoUnknown,
      DiagnosticEv Error exInfoUnknown,
      DiagnosticEv Error exInfoUnknown,
      TokenCollectedEv ''x'']"

definition exClang :: CompilerInstance where
  "exClang =
     \<lparr>getInvocation = \<lparr>DisableFree = False, CommandLine = [''clang'', ''main.cpp'']\<rparr>,
      MainInputFile = ''main.cpp'',
      getSourceManager = exSM,
      getPPCallbacks = []\<rparr>"

definition exFE :: Frontend where
  "exFE =
     \<lparr>prepareCompilerInstance =
        (\<lambda>CI P B V. if ''--target=none'' \<in> set (CommandLine CI) then None
                     else Some (exClang\<lparr>getInvocation := CI, MainInputFile := getBufferName B\<rparr>)),
      BeginSourceFile = (\<lambda>C F. if F = ''unreadable.cpp'' then None else Some C),
      earlyDiagnostics = [],
      createContext = (\<lambda>TidyOpts. exCtx),
      createChecks =
        (\<lambda>TidyOpts. [\<lparr>checkName = ''R'', isLanguageVersionSupported = True, addsPPCallbacks = True\<rparr>,
               \<lparr>checkName = ''S'', isLanguageVersionSupported = True, addsPPCallbacks = False\<rparr>]),
      Execute = (\<lambda>C. (exEvents, Some ''fatal error'')),
      matchAST = (\<lambda>Ds. [(Warning, exInfoHeader)]),
      addSystemHeadersMapping = [],
      getCurrentWorkingDirectory = WorkingDirectory,
      setCurrentWorkingDirectory =
        (\<lambda>V D. if D = ''/nonexistent'' then (True, V) else (False, V\<lparr>WorkingDirectory := Some D\<rparr>)),
      getConsumingFS = (\<lambda>V. V\<lparr>ConsumesStatCache := True\<rparr>)\<rparr>"

text \<open>The same frontend with checks that register no preprocessor callbacks.\<close>

definition exQuietFE :: Frontend where
  "exQuietFE =
     exFE\<lparr>createChecks :=
            (\<lambda>TidyOpts. [\<lparr>checkName = ''S'', isLanguageVersionSupported = True,
                            addsPPCallbacks = False\<rparr>])\<rparr>"

definition exCfgDiag :: Diag where
  "exCfgDiag = \<lparr>ID = 100, Severity = Warning, Location = 0, Message = ''unknown argument'',
                Name = [], Fixes = []\<rparr>"

definition exPreDiag :: Diag where
  "exPreDiag = \<lparr>ID = 101, Severity = Error, Location = 9, Message = ''file not found'',
                Name = [], Fixes = []\<rparr>"

definition exPreamble :: PreambleData where
  "exPreamble =
     \<lparr>PD_Preamble = ''main.pch'', PD_Diags = [exPreDiag],
      PD_Includes = \<lparr>MainFileIncludes = [exIncA, exIncB, exIncC]\<rparr>,
      PD_Macros = [], PD_CanonIncludes = [], PD_StatCache = True\<rparr>"

definition exCI :: CompilerInvocation where
  "exCI = \<lparr>DisableFree = True, CommandLine = [''clang'', ''main.cpp'']\<rparr>"

definition exBuffer :: MemoryBuffer where
  "exBuffer = \<lparr>getBuffer = exMainFile, getBufferName = ''main.cpp''\<rparr>"

definition exVfs :: VFS where
  "exVfs = \<lparr>WorkingDirectory = Some ''/work'', ConsumesStatCache = False\<rparr>"

definition exVfsCached :: VFS where
  "exVfsCached = \<lparr>WorkingDirectory = Some ''/work'', ConsumesStatCache = True\<rparr>"

definition exSpentFixer :: IncludeFixer where
  "exSpentFixer =
     \<lparr>FixerFile = ''main.cpp'', Existing = [], FixerIndex = (\<lambda>Sym. [''<foo.h>'']),
      IndexRequestLimit = 5, IndexRequestCount = 5,
      IndexRequests = [''Foo'', ''Foo'', ''Foo'', ''Foo'', ''Foo'']\<rparr>"

definition exIndex :: SymbolIndex where
  "exIndex = (\<lambda>Sym. if Sym = ''Foo'' then [''<foo.h>''] else [])"

definition exOpts :: ParseOptions where
  "exOpts = \<lparr>ClangTidyOpts = ''*'', SuggestMissingIncludes = True\<rparr>"

definition exInputs :: ParseInputs where
  "exInputs =
     \<lparr>PI_CompileCommandDirectory = ''/nonexistent'', PI_FS = exVfs, PI_Contents = exMainFile,
      PI_Opts = exOpts, PI_Index = Some exIndex\<rparr>"

text \<open>
  The instance after \<^verbatim>\<open>BeginSourceFile\<close>, the instance with the callbacks of this build
  registered, and the locals as they are when \<^verbatim>\<open>Execute\<close> starts.
\<close>

definition exClang1 :: CompilerInstance where
  "exClang1 = exClang\<lparr>getInvocation := exCI\<lparr>DisableFree := False\<rparr>, MainInputFile := ''main.cpp''\<rparr>"

definition exClang2 :: CompilerInstance where
  "exClang2 =
     setupCallbacks (createChecks exFE (ClangTidyOpts exOpts)) (Some exPreamble)
       (exClang\<lparr>getInvocation := exCI\<lparr>DisableFree := False\<rparr>, MainInputFile := ''main.cpp''\<rparr>)"

definition exState0 :: BuildState where
  "exState0 =
     initialState exFE (Some exPreamble)
       (setupFixIncludes ''main.cpp'' (Some exPreamble) (Some exIndex) exOpts (Some ''/work''))"

section \<open>Lemmas\<close>

subsection \<open>The replay\<close>

lemma replayBody_cases:
  "replayBody S Inc = (AssertionFailed, []) \<or>
   (\<exists>A. replayBody S Inc = (Returned (), [InclusionDirective A, replayFollowUp S Inc]) \<and>
        drop_front (Written Inc) = Returned (drop 1 (Written Inc)) \<and>
        drop_back (drop 1 (Written Inc)) = Returned (FileName A) \<and>
        FileName A = butlast (drop 1 (Written Inc)) \<and>
        IsAngled A = startswith (Written Inc) ''<'' \<and>
        File A = (if Resolved Inc \<noteq> [] then getFile S (Resolved Inc) else None) \<and>
        SearchPath A = ''SearchPath'' \<and> RelativePath A = ''RelPath'' \<and> Imported A = None \<and>
        FileType A = FileKind Inc)"
  by (auto simp: replayBody_def WrittenFilename_def drop_front_def drop_back_def
        getRawIdentifier_def replayFollowUp_def replayFile_def Angled_def Let_def
      split: Outcome.splits prod.splits option.splits if_splits)

lemma replayFollowUp_not_inclusion: "replayFollowUp S Inc \<noteq> InclusionDirective A"
  by (simp add: replayFollowUp_def split: option.splits)

lemma not_replays: "\<not> replays S Inc \<Longrightarrow> replayBody S Inc = (AssertionFailed, [])"
  using replayBody_cases[of S Inc] by (auto simp: replays_def)

lemma replays_events:
  assumes "replays S Inc"
  obtains A where "replayBody S Inc = (Returned (), [InclusionDirective A, replayFollowUp S Inc])"
    and "drop_front (Written Inc) = Returned (drop 1 (Written Inc))"
    and "drop_back (drop 1 (Written Inc)) = Returned (FileName A)"
    and "FileName A = butlast (drop 1 (Written Inc))"
    and "IsAngled A = startswith (Written Inc) ''<''"
    and "File A = (if Resolved Inc \<noteq> [] then getFile S (Resolved Inc) else None)"
    and "SearchPath A = ''SearchPath''" and "RelativePath A = ''RelPath''"
    and "Imported A = None" and "FileType A = FileKind Inc"
  using replayBody_cases[of S Inc] assms by (auto simp: replays_def)

lemma replayOne_replays:
  assumes "replays S Inc"
  shows "\<exists>A. replayOne S Inc = [InclusionDirective A, replayFollowUp S Inc] \<and>
           FileName A = butlast (drop 1 (Written Inc)) \<and>
           IsAngled A = startswith (Written Inc) ''<''"
  using replays_events[OF assms] by (metis replayOne_def snd_conv)

lemma replayOne_not_replays: "\<not> replays S Inc \<Longrightarrow> replayOne S Inc = []"
  by (simp add: replayOne_def not_replays)

lemma replayLoop_events_subset:
  "set (snd (replayLoop S Incs)) \<subseteq> (\<Union>Inc \<in> set Incs. set (replayOne S Inc))"
  by (induction Incs) (auto simp: replayOne_def split: prod.splits Outcome.splits)

lemma replayLoop_complete:
  "list_all (replays S) Incs \<Longrightarrow>
   replayLoop S Incs = (Returned (), concat (map (replayOne S) Incs))"
  by (induction Incs) (auto simp: replayOne_def replays_def split: prod.splits Outcome.splits)

lemma replayLoop_Returned:
  "replayLoop S Incs = (Returned u, evs) \<Longrightarrow>
   list_all (replays S) Incs \<and> evs = concat (map (replayOne S) Incs)"
proof (induction Incs arbitrary: evs)
  case Nil
  then show ?case by simp
next
  case (Cons Inc Incs)
  obtain r1 evs1 where b: "replayBody S Inc = (r1, evs1)" by (cases "replayBody S Inc")
  obtain r2 evs2 where l: "replayLoop S Incs = (r2, evs2)" by (cases "replayLoop S Incs")
  from Cons.prems b have r1: "r1 = Returned ()" by (cases r1) auto
  with Cons.prems b l have r2: "r2 = Returned u" and evs: "evs = evs1 @ evs2" by auto
  from Cons.IH[of evs2] l r2 have rest: "list_all (replays S) Incs"
    "evs2 = concat (map (replayOne S) Incs)" by auto
  from b r1 have "replays S Inc" and "replayOne S Inc = evs1"
    by (simp_all add: replays_def replayOne_def)
  with rest evs show ?case by simp
qed

lemma spelling_of_inclusions:
  "[(FileName A, IsAngled A). InclusionDirective A \<leftarrow> evs] =
     map (\<lambda>A. (FileName A, IsAngled A)) [A. InclusionDirective A \<leftarrow> evs]"
  by (induction evs) (auto split: PPEvent.splits)

lemma replayed_length:
  "list_all (replays S) Rs \<Longrightarrow> length (concat (map (replayOne S) Rs)) = 2 * length Rs"
proof (induction Rs)
  case Nil
  then show ?case by simp
next
  case (Cons Inc Rs)
  then have "replays S Inc" by simp
  from replayOne_replays[OF this] Cons show ?case by auto
qed

lemma replayed_spelling:
  "list_all (replays S) Rs \<Longrightarrow>
   [(FileName A, IsAngled A). InclusionDirective A \<leftarrow> concat (map (replayOne S) Rs)] =
     map (\<lambda>Inc. (butlast (drop 1 (Written Inc)), startswith (Written Inc) ''<'')) Rs"
proof (induction Rs)
  case Nil
  then show ?case by simp
next
  case (Cons Inc Rs)
  then have "replays S Inc" by simp
  from replayOne_replays[OF this] obtain A where
    "replayOne S Inc = [InclusionDirective A, replayFollowUp S Inc]"
    and "FileName A = butlast (drop 1 (Written Inc))"
    and "IsAngled A = startswith (Written Inc) ''<''"
    by blast
  with Cons show ?case
    by (cases "replayFollowUp S Inc") (simp_all add: replayFollowUp_not_inclusion)
qed

lemma replayed_nth:
  "list_all (replays S) Rs \<Longrightarrow> i < length Rs \<Longrightarrow>
   (\<exists>A. concat (map (replayOne S) Rs) ! (2 * i) = InclusionDirective A) \<and>
   concat (map (replayOne S) Rs) ! (2 * i + 1) = replayFollowUp S (Rs ! i)"
proof (induction Rs arbitrary: i)
  case Nil
  then show ?case by simp
next
  case (Cons Inc Rs)
  then have "replays S Inc" by simp
  from replayOne_replays[OF this] obtain A where
    one: "replayOne S Inc = [InclusionDirective A, replayFollowUp S Inc]"
    by blast
  show ?case
  proof (cases i)
    case 0
    with one show ?thesis by simp
  next
    case (Suc j)
    with Cons.prems have "j < length Rs" and "list_all (replays S) Rs" by simp_all
    from Cons.IH[OF this(2) this(1)] Suc one show ?thesis by simp
  qed
qed

lemma replayedRecords_none:
  "filter (builtinExit S) evs = [] \<Longrightarrow> replayedRecords S Incs evs = []"
  by (induction evs arbitrary: Incs) (auto split: if_splits)

lemma replayedRecords_once:
  "length (filter (builtinExit S) evs) = 1 \<Longrightarrow>
   [Inc. IncludeCollectedEv Inc \<leftarrow> takeWhile (\<lambda>ev. \<not> builtinExit S ev) evs] = [] \<Longrightarrow>
   replayedRecords S Incs evs = Incs"
proof (induction evs arbitrary: Incs)
  case Nil
  then show ?case by simp
next
  case (Cons ev evs)
  show ?case
  proof (cases "builtinExit S ev")
    case True
    with Cons.prems have "filter (builtinExit S) evs = []" by simp
    from replayedRecords_none[OF this] True show ?thesis by simp
  next
    case False
    with Cons.prems have n: "[Inc. IncludeCollectedEv Inc \<leftarrow> [ev]] = []"
      and "length (filter (builtinExit S) evs) = 1"
      and "[Inc. IncludeCollectedEv Inc \<leftarrow> takeWhile (\<lambda>ev. \<not> builtinExit S ev) evs] = []"
      by simp_all
    from Cons.IH[OF this(2) this(3)] False n show ?thesis by simp
  qed
qed

subsection \<open>The consumers of declarations and diagnostics\<close>

lemma HandleTopLevelDecl_filter:
  "HandleTopLevelDecl H DG T = T @ filter (keeps H) DG"
  by (induction DG arbitrary: T) (auto simp: keeps_def)

lemma HandleTopLevelDecl_keeps:
  "list_all (keeps H) T \<Longrightarrow> list_all (keeps H) (HandleTopLevelDecl H DG T)"
  by (auto simp: HandleTopLevelDecl_filter list_all_iff)

lemma HandleDiagnostic_frame:
  "TopLevelDecls (HandleDiagnostic A L I st) = TopLevelDecls st"
  "CollectTokens (HandleDiagnostic A L I st) = CollectTokens st"
  "Delegated (HandleDiagnostic A L I st) = Delegated st"
  "IncludesVar (HandleDiagnostic A L I st) = IncludesVar st"
  by (simp_all add: HandleDiagnostic_def Let_def split: option.splits prod.splits)

lemma HandleDiagnostic_diags:
  "map (\<lambda>d. (ID d, Severity d)) (ASTDiags (HandleDiagnostic A L I st)) =
     map (\<lambda>d. (ID d, Severity d)) (ASTDiags st) @ [(getID I, A L I)]"
  by (simp add: HandleDiagnostic_def Let_def split: option.splits prod.splits)

lemma HandleDiagnostic_budget:
  "withinBudget st \<Longrightarrow> withinBudget (HandleDiagnostic A L I st)"
  by (auto simp: withinBudget_def HandleDiagnostic_def IncludeFixer_fix_def Let_def
           split: option.splits prod.splits if_splits)

lemma handleAll_budget:
  "withinBudget st \<Longrightarrow> withinBudget (handleAll A ds st)"
  by (induction ds arbitrary: st) (auto simp: HandleDiagnostic_budget)

lemma handleAll_frame:
  "TopLevelDecls (handleAll A ds st) = TopLevelDecls st"
  "CollectTokens (handleAll A ds st) = CollectTokens st"
  "Delegated (handleAll A ds st) = Delegated st"
  by (induction ds arbitrary: st) (auto simp: HandleDiagnostic_frame)

lemma handleAll_diags:
  "map (\<lambda>d. (ID d, Severity d)) (ASTDiags (handleAll A ds st)) =
     map (\<lambda>d. (ID d, Severity d)) (ASTDiags st) @ map (\<lambda>(L, I). (getID I, A L I)) ds"
  by (induction ds arbitrary: st) (auto simp: HandleDiagnostic_diags)

lemma take_diags_key:
  "map (\<lambda>d. (ID d, Severity d)) (take_diags Ctx ds) = map (\<lambda>d. (ID d, Severity d)) ds"
  by (cases Ctx) (simp_all add: take_diags_def o_def)

subsection \<open>The callbacks of the frontend, one after the other\<close>

lemma dispatch_budget:
  "withinBudget st \<Longrightarrow> withinBudget (snd (dispatch H A C ev st))"
proof (cases ev)
  case (DiagnosticEv L I)
  assume "withinBudget st"
  then show ?thesis using DiagnosticEv by (simp add: HandleDiagnostic_budget)
qed (auto simp: withinBudget_def split: prod.splits)

lemma runEvents_budget:
  "withinBudget st \<Longrightarrow> withinBudget (snd (runEvents H A C evs st))"
proof (induction evs arbitrary: st)
  case Nil
  then show ?case by simp
next
  case (Cons ev evs)
  from Cons.prems have b: "withinBudget (snd (dispatch H A C ev st))"
    by (rule dispatch_budget)
  show ?case
  proof (cases "dispatch H A C ev st")
    case (Pair r st')
    with b have b': "withinBudget st'" by simp
    show ?thesis
    proof (cases r)
      case AssertionFailed
      with Pair b' show ?thesis by simp
    next
      case (Returned u)
      with Pair Cons.IH[OF b'] show ?thesis by simp
    qed
  qed
qed

lemma dispatch_collects:
  assumes "dispatch H A C ev st = (r, st')"
  shows "TopLevelDecls st' =
           foldl (\<lambda>T DG. HandleTopLevelDecl H DG T) (TopLevelDecls st) [DG. TopLevelDeclEv DG \<leftarrow> [ev]]"
    and "CollectTokens st' = CollectTokens st @ [T. TokenCollectedEv T \<leftarrow> [ev]]"
    and "map (\<lambda>d. (ID d, Severity d)) (ASTDiags st') =
           map (\<lambda>d. (ID d, Severity d)) (ASTDiags st) @
           map (\<lambda>(L, I). (getID I, A L I)) [(L, I). DiagnosticEv L I \<leftarrow> [ev]]"
  using assms
  by (cases ev; auto simp: HandleDiagnostic_frame HandleDiagnostic_diags split: if_splits prod.splits)+

lemma runEvents_collects:
  assumes "runEvents H A C evs st = (Returned u, st')"
  shows "TopLevelDecls st' =
           foldl (\<lambda>T DG. HandleTopLevelDecl H DG T) (TopLevelDecls st) [DG. TopLevelDeclEv DG \<leftarrow> evs] \<and>
         CollectTokens st' = CollectTokens st @ [T. TokenCollectedEv T \<leftarrow> evs] \<and>
         map (\<lambda>d. (ID d, Severity d)) (ASTDiags st') =
           map (\<lambda>d. (ID d, Severity d)) (ASTDiags st) @
           map (\<lambda>(L, I). (getID I, A L I)) [(L, I). DiagnosticEv L I \<leftarrow> evs]"
  using assms
proof (induction evs arbitrary: st)
  case Nil
  then show ?case by simp
next
  case (Cons ev evs)
  obtain r st1 where d: "dispatch H A C ev st = (r, st1)" by (cases "dispatch H A C ev st")
  with Cons.prems obtain u1 where r: "r = Returned u1" and run: "runEvents H A C evs st1 = (Returned u, st')"
    by (cases r) auto
  note c = dispatch_collects[OF d]
  from Cons.IH[OF run] c show ?case by simp
qed

lemma runEvents_keeps:
  "list_all (keeps H) (TopLevelDecls st) \<Longrightarrow>
   list_all (keeps H) (TopLevelDecls (snd (runEvents H A C evs st)))"
proof (induction evs arbitrary: st)
  case Nil
  then show ?case by simp
next
  case (Cons ev evs)
  have k: "list_all (keeps H) (TopLevelDecls (snd (dispatch H A C ev st)))"
    using Cons.prems
    by (cases ev) (auto simp: HandleTopLevelDecl_keeps HandleDiagnostic_frame split: prod.splits)
  show ?case
  proof (cases "dispatch H A C ev st")
    case (Pair r st')
    with k have k': "list_all (keeps H) (TopLevelDecls st')" by simp
    show ?thesis
    proof (cases r)
      case AssertionFailed
      with Pair k' show ?thesis by simp
    next
      case (Returned u)
      with Pair Cons.IH[OF k'] show ?thesis by simp
    qed
  qed
qed

lemma dispatch_Returned:
  "(\<forall>Loc Reason Kind PrevFID. ev \<noteq> FileChangedEv Loc Reason Kind PrevFID) \<Longrightarrow>
   fst (dispatch H A C ev st) = Returned ()"
  by (cases ev) simp_all

lemma runEvents_Returned:
  "list_all (\<lambda>ev. case ev of FileChangedEv Loc Reason Kind PrevFID \<Rightarrow> False | _ \<Rightarrow> True) evs \<Longrightarrow>
   fst (runEvents H A C evs st) = Returned ()"
proof (induction evs arbitrary: st)
  case Nil
  then show ?case by simp
next
  case (Cons ev evs)
  then have "fst (dispatch H A C ev st) = Returned ()"
    by (intro dispatch_Returned) (auto split: ExecEvent.splits)
  then obtain st' where "dispatch H A C ev st = (Returned (), st')"
    by (cases "dispatch H A C ev st") auto
  with Cons show ?case by simp
qed

lemma replayedRecords_Cons:
  "replayedRecords S Incs (ev # evs) =
     replayedRecords S Incs [ev] @
     replayedRecords S (Incs @ [Inc. IncludeCollectedEv Inc \<leftarrow> [ev]]) evs"
  by simp

lemma dispatch_includes:
  assumes "dispatch H A C ev st = (r, st')"
  shows "MainFileIncludes (IncludesVar st') =
           MainFileIncludes (IncludesVar st) @ [Inc. IncludeCollectedEv Inc \<leftarrow> [ev]]"
  using assms
  by (cases ev) (auto simp: HandleDiagnostic_frame split: if_splits prod.splits)

lemma dispatch_replays:
  assumes d: "dispatch H A C ev st = (Returned u, st')"
    and l: "ReplayPreambleCallbacks \<in> set (getPPCallbacks C)"
  shows "Delegated st' =
           Delegated st @
           concat (map (replayOne (getSourceManager C))
                     (replayedRecords (getSourceManager C) (MainFileIncludes (IncludesVar st)) [ev])) \<and>
         list_all (replays (getSourceManager C))
           (replayedRecords (getSourceManager C) (MainFileIncludes (IncludesVar st)) [ev])"
proof (cases ev)
  case (FileChangedEv Loc Reason Kind PrevFID)
  let ?S = "getSourceManager C" and ?Incs = "MainFileIncludes (IncludesVar st)"
  show ?thesis
  proof (cases "builtinExit ?S ev")
    case True
    obtain r evs where rl: "replayLoop ?S ?Incs = (r, evs)" by (cases "replayLoop ?S ?Incs")
    from True FileChangedEv have c: "Reason = ExitFile \<and> getBufferIdentifier ?S PrevFID = ''<built-in>''"
      by (simp add: builtinExit_def)
    from d l FileChangedEv c rl have r: "r = Returned u" and st': "Delegated st' = Delegated st @ evs"
      by (auto simp: FileChanged_def replay_def)
    from replayLoop_Returned[of ?S ?Incs u evs] rl r
    have "list_all (replays ?S) ?Incs" and "evs = concat (map (replayOne ?S) ?Incs)" by simp_all
    with st' True show ?thesis by simp
  next
    case False
    with FileChangedEv have "\<not> (Reason = ExitFile \<and> getBufferIdentifier ?S PrevFID = ''<built-in>'')"
      by (simp add: builtinExit_def)
    with d l FileChangedEv have "Delegated st' = Delegated st"
      by (auto simp: FileChanged_def)
    with False show ?thesis by simp
  qed
qed (use d in \<open>auto simp: builtinExit_def HandleDiagnostic_frame\<close>)

lemma runEvents_replays:
  assumes "runEvents H A C evs st = (Returned u, st')"
    and l: "ReplayPreambleCallbacks \<in> set (getPPCallbacks C)"
  shows "Delegated st' =
           Delegated st @
           concat (map (replayOne (getSourceManager C))
                     (replayedRecords (getSourceManager C) (MainFileIncludes (IncludesVar st)) evs)) \<and>
         list_all (replays (getSourceManager C))
           (replayedRecords (getSourceManager C) (MainFileIncludes (IncludesVar st)) evs)"
  using assms(1)
proof (induction evs arbitrary: st)
  case Nil
  then show ?case by simp
next
  case (Cons ev evs)
  obtain r st1 where d: "dispatch H A C ev st = (r, st1)" by (cases "dispatch H A C ev st")
  with Cons.prems obtain u1 where r: "r = Returned u1"
    and run: "runEvents H A C evs st1 = (Returned u, st')"
    by (cases r) auto
  from d r have d': "dispatch H A C ev st = (Returned u1, st1)" by simp
  note one = dispatch_replays[OF d' l] and inc = dispatch_includes[OF d]
  from Cons.IH[OF run] one show ?case
    unfolding replayedRecords_Cons[of _ _ ev evs] inc by simp
qed

lemma dispatch_quiet:
  "ReplayPreambleCallbacks \<notin> set (getPPCallbacks C) \<Longrightarrow>
   fst (dispatch H A C ev st) = Returned () \<and> Delegated (snd (dispatch H A C ev st)) = Delegated st"
  by (cases ev) (simp_all add: HandleDiagnostic_frame)

lemma runEvents_quiet:
  "ReplayPreambleCallbacks \<notin> set (getPPCallbacks C) \<Longrightarrow>
   fst (runEvents H A C evs st) = Returned () \<and>
   Delegated (snd (runEvents H A C evs st)) = Delegated st"
proof (induction evs arbitrary: st)
  case Nil
  then show ?case by simp
next
  case (Cons ev evs)
  from dispatch_quiet[OF Cons.prems, of H A ev st]
  obtain st1 where d: "dispatch H A C ev st = (Returned (), st1)"
    and "Delegated st1 = Delegated st"
    by (cases "dispatch H A C ev st") auto
  with Cons.IH[OF Cons.prems, of st1] show ?case by simp
qed

lemma registerChecks_SM: "getSourceManager (registerChecks Cs C) = getSourceManager C"
  by (induction Cs arbitrary: C) (simp_all add: addPPCallbacks_def)

lemma setupCallbacks_SM: "getSourceManager (setupCallbacks Cs P C) = getSourceManager C"
  by (simp add: setupCallbacks_def attach_def addPPCallbacks_def Let_def registerChecks_SM)

lemma setupCallbacks_listening:
  "(ReplayPreambleCallbacks \<in> set (getPPCallbacks (setupCallbacks Cs (Some P) C))) =
   (getPPCallbacks (registerChecks Cs C) \<noteq> [])"
  by (simp add: setupCallbacks_def attach_def addPPCallbacks_def Let_def)

subsection \<open>The paths through the build\<close>

lemma initialState_simps:
  "TopLevelDecls (initialState FE Preamble Fixer) = []"
  "ASTDiags (initialState FE Preamble Fixer) = earlyDiagnostics FE"
  "CollectTokens (initialState FE Preamble Fixer) = []"
  "FixIncludes (initialState FE Preamble Fixer) = Fixer"
  "Delegated (initialState FE Preamble Fixer) = []"
  "IncludesVar (initialState FE (Some P) Fixer) = PD_Includes P"
  by (simp_all add: initialState_def)

lemma initialState_budget:
  "withinBudget (initialState FE Preamble (setupFixIncludes Filename Preamble Index Opts BuildDir))"
  by (simp add: withinBudget_def initialState_def setupFixIncludes_def split: option.splits)

lemma effectsOf_budget:
  "withinBudget st \<Longrightarrow> length (IndexQueries (effectsOf lg st)) \<le> 5"
  by (simp add: withinBudget_def effectsOf_def split: option.splits)

lemma effectsOf_Log: "Log (effectsOf lg st) = lg"
  by (simp add: effectsOf_def)

lemma assemble_result:
  "assemble FE A Ctx CIDiags Preamble C lg st =
     (Returned (Some \<lparr>AST_Preamble = Preamble, AST_Clang = C, AST_Tokens = CollectTokens st,
        AST_Macros = MacrosVar (handleAll A (matchAST FE (TopLevelDecls st)) st),
        AST_Diags = CIDiags @ (case Preamble of None \<Rightarrow> [] | Some P \<Rightarrow> PD_Diags P) @
          take_diags Ctx (ASTDiags (handleAll A (matchAST FE (TopLevelDecls st)) st)),
        AST_LocalTopLevelDecls = TopLevelDecls st,
        AST_Includes = IncludesVar (handleAll A (matchAST FE (TopLevelDecls st)) st),
        AST_CanonIncludes = CanonIncludesVar (handleAll A (matchAST FE (TopLevelDecls st)) st)\<rparr>),
      effectsOf lg (handleAll A (matchAST FE (TopLevelDecls st)) st))"
  by (simp add: assemble_def Let_def split: option.splits)

lemma collected_diags:
  assumes "runEvents H A C Events (initialState FE Preamble Fixer) = (Returned u, st)"
  shows "map (\<lambda>d. (ID d, Severity d))
           (take_diags Ctx (ASTDiags (handleAll A (matchAST FE (TopLevelDecls st)) st))) =
         map (\<lambda>d. (ID d, Severity d)) (earlyDiagnostics FE) @
         map (\<lambda>(L, I). (getID I, A L I))
           ([(L, I). DiagnosticEv L I \<leftarrow> Events] @ matchAST FE (TopLevelDecls st))"
proof -
  from runEvents_collects[OF assms]
  have "map (\<lambda>d. (ID d, Severity d)) (ASTDiags st) =
          map (\<lambda>d. (ID d, Severity d)) (earlyDiagnostics FE) @
          map (\<lambda>(L, I). (getID I, A L I)) [(L, I). DiagnosticEv L I \<leftarrow> Events]"
    by (simp add: initialState_simps)
  then show ?thesis
    by (simp only: take_diags_key handleAll_diags map_append append_assoc)
qed

lemma build_prepare_failed:
  assumes "prepareCompilerInstance FE (CI\<lparr>DisableFree := False\<rparr>) (map_option PD_Preamble Preamble)
             Buffer Vfs = None"
  shows "build FE H CI CIDiags Preamble Buffer Vfs Index Opts = (Returned None, noEffects)"
  using assms by (simp add: build_def Let_def)

lemma build_begin_failed:
  assumes "prepareCompilerInstance FE (CI\<lparr>DisableFree := False\<rparr>) (map_option PD_Preamble Preamble)
             Buffer Vfs = Some Clang0"
    and "BeginSourceFile FE Clang0 (MainInputFile Clang0) = None"
  shows "build FE H CI CIDiags Preamble Buffer Vfs Index Opts =
           (Returned None, noEffects\<lparr>Log := [BeginSourceFileFailed (MainInputFile Clang0)]\<rparr>)"
  using assms by (simp add: build_def Let_def)

lemma build_started:
  assumes "prepareCompilerInstance FE (CI\<lparr>DisableFree := False\<rparr>) (map_option PD_Preamble Preamble)
             Buffer Vfs = Some Clang0"
    and "BeginSourceFile FE Clang0 (MainInputFile Clang0) = Some Clang1"
    and "Execute FE (setupCallbacks (createChecks FE (ClangTidyOpts Opts)) Preamble Clang1) =
           (Events, Err)"
    and "runEvents H (LevelAdjuster H (Some (createContext FE (ClangTidyOpts Opts))))
           (setupCallbacks (createChecks FE (ClangTidyOpts Opts)) Preamble Clang1) Events
           (initialState FE Preamble
              (setupFixIncludes (getBufferName Buffer) Preamble Index Opts
                 (getCurrentWorkingDirectory FE Vfs))) = (r, st)"
  shows "build FE H CI CIDiags Preamble Buffer Vfs Index Opts =
           (case r of
              AssertionFailed \<Rightarrow> (AssertionFailed, effectsOf [] st)
            | Returned u \<Rightarrow>
                assemble FE (LevelAdjuster H (Some (createContext FE (ClangTidyOpts Opts))))
                  (Some (createContext FE (ClangTidyOpts Opts))) CIDiags Preamble
                  (setupCallbacks (createChecks FE (ClangTidyOpts Opts)) Preamble Clang1)
                  (case Err of None \<Rightarrow> [] | Some E \<Rightarrow> [ExecuteFailed (MainInputFile Clang0) E])
                  st)"
  using assms by (simp add: build_def Let_def split: Outcome.splits)

lemma build_SomeE:
  assumes "build FE H CI CIDiags Preamble Buffer Vfs Index Opts = (Returned (Some AST), Eff)"
  obtains Clang0 Clang1 Events Err u st where
    "prepareCompilerInstance FE (CI\<lparr>DisableFree := False\<rparr>) (map_option PD_Preamble Preamble)
       Buffer Vfs = Some Clang0"
    and "BeginSourceFile FE Clang0 (MainInputFile Clang0) = Some Clang1"
    and "Execute FE (setupCallbacks (createChecks FE (ClangTidyOpts Opts)) Preamble Clang1) =
           (Events, Err)"
    and "runEvents H (LevelAdjuster H (Some (createContext FE (ClangTidyOpts Opts))))
           (setupCallbacks (createChecks FE (ClangTidyOpts Opts)) Preamble Clang1) Events
           (initialState FE Preamble
              (setupFixIncludes (getBufferName Buffer) Preamble Index Opts
                 (getCurrentWorkingDirectory FE Vfs))) = (Returned u, st)"
    and "assemble FE (LevelAdjuster H (Some (createContext FE (ClangTidyOpts Opts))))
           (Some (createContext FE (ClangTidyOpts Opts))) CIDiags Preamble
           (setupCallbacks (createChecks FE (ClangTidyOpts Opts)) Preamble Clang1)
           (case Err of None \<Rightarrow> [] | Some E \<Rightarrow> [ExecuteFailed (MainInputFile Clang0) E])
           st = (Returned (Some AST), Eff)"
proof (cases "prepareCompilerInstance FE (CI\<lparr>DisableFree := False\<rparr>)
                (map_option PD_Preamble Preamble) Buffer Vfs")
  case None
  from build_prepare_failed[OF None] assms show ?thesis by simp
next
  case p: (Some Clang0)
  show ?thesis
  proof (cases "BeginSourceFile FE Clang0 (MainInputFile Clang0)")
    case None
    from build_begin_failed[OF p None] assms show ?thesis by simp
  next
    case b: (Some Clang1)
    obtain Events Err where
      e: "Execute FE (setupCallbacks (createChecks FE (ClangTidyOpts Opts)) Preamble Clang1) =
            (Events, Err)"
      by (cases "Execute FE (setupCallbacks (createChecks FE (ClangTidyOpts Opts)) Preamble Clang1)")
    obtain r st where
      run: "runEvents H (LevelAdjuster H (Some (createContext FE (ClangTidyOpts Opts))))
           (setupCallbacks (createChecks FE (ClangTidyOpts Opts)) Preamble Clang1) Events
           (initialState FE Preamble
              (setupFixIncludes (getBufferName Buffer) Preamble Index Opts
                 (getCurrentWorkingDirectory FE Vfs))) = (r, st)"
      by (cases "runEvents H (LevelAdjuster H (Some (createContext FE (ClangTidyOpts Opts))))
           (setupCallbacks (createChecks FE (ClangTidyOpts Opts)) Preamble Clang1) Events
           (initialState FE Preamble
              (setupFixIncludes (getBufferName Buffer) Preamble Index Opts
                 (getCurrentWorkingDirectory FE Vfs)))")
    note s = build_started[OF p b e run, of CIDiags]
    show ?thesis
    proof (cases r)
      case AssertionFailed
      with s assms show ?thesis by simp
    next
      case (Returned u)
      with s assms that[OF p b e] run show ?thesis by simp
    qed
  qed
qed

lemma build_Some_collected:
  assumes "build FE H CI CIDiags Preamble Buffer Vfs Index Opts = (Returned (Some AST), Eff)"
  shows "AST_LocalTopLevelDecls AST =
           foldl (\<lambda>T DG. HandleTopLevelDecl H DG T) []
             [DG. TopLevelDeclEv DG \<leftarrow> fst (Execute FE (AST_Clang AST))] \<and>
         AST_Tokens AST = [T. TokenCollectedEv T \<leftarrow> fst (Execute FE (AST_Clang AST))]"
proof -
  let ?A = "LevelAdjuster H (Some (createContext FE (ClangTidyOpts Opts)))"
  from assms obtain Clang0 Clang1 Events Err u st where
    "prepareCompilerInstance FE (CI\<lparr>DisableFree := False\<rparr>) (map_option PD_Preamble Preamble)
       Buffer Vfs = Some Clang0"
    and "BeginSourceFile FE Clang0 (MainInputFile Clang0) = Some Clang1"
    and e: "Execute FE (setupCallbacks (createChecks FE (ClangTidyOpts Opts)) Preamble Clang1) =
           (Events, Err)"
    and run: "runEvents H ?A
           (setupCallbacks (createChecks FE (ClangTidyOpts Opts)) Preamble Clang1) Events
           (initialState FE Preamble
              (setupFixIncludes (getBufferName Buffer) Preamble Index Opts
                 (getCurrentWorkingDirectory FE Vfs))) = (Returned u, st)"
    and asm: "assemble FE ?A
           (Some (createContext FE (ClangTidyOpts Opts))) CIDiags Preamble
           (setupCallbacks (createChecks FE (ClangTidyOpts Opts)) Preamble Clang1)
           (case Err of None \<Rightarrow> [] | Some E \<Rightarrow> [ExecuteFailed (MainInputFile Clang0) E])
           st = (Returned (Some AST), Eff)"
    by (rule build_SomeE)
  from asm have "AST_Clang AST = setupCallbacks (createChecks FE (ClangTidyOpts Opts)) Preamble Clang1"
    and "AST_LocalTopLevelDecls AST = TopLevelDecls st"
    and "AST_Tokens AST = CollectTokens st"
    by (auto simp: assemble_result)
  with runEvents_collects[OF run] e show ?thesis
    by (simp add: initialState_simps)
qed

subsection \<open>The queries of the include fixer\<close>

lemma symbolsOf_simps:
  "symbolsOf [] = []"
  "symbolsOf ((L, I) # ds) = (case UnresolvedSymbol I of None \<Rightarrow> [] | Some Sym \<Rightarrow> [Sym]) @ symbolsOf ds"
  "symbolsOf (ds @ ds') = symbolsOf ds @ symbolsOf ds'"
  by (simp_all add: symbolsOf_def)

lemma take_snoc_budget:
  "take n (syms @ [Sym]) = (if n \<le> length (take n syms) then take n syms else take n syms @ [Sym])"
  by (cases "n \<le> length syms") auto

lemma HandleDiagnostic_queried:
  assumes "queried n syms st"
  shows "queried n (syms @ symbolsOf [(L, I)]) (HandleDiagnostic A L I st)"
proof -
  from assms obtain F where F: "FixIncludes st = Some F"
    and lim: "IndexRequestLimit F = n"
    and cnt: "IndexRequestCount F = length (IndexRequests F)"
    and req: "IndexRequests F = take n syms"
    by (auto simp: queried_def split: option.splits)
  show ?thesis
  proof (cases "UnresolvedSymbol I")
    case None
    with F lim cnt req show ?thesis
      by (simp add: queried_def HandleDiagnostic_def IncludeFixer_fix_def Let_def symbolsOf_simps)
  next
    case (Some Sym)
    with F lim cnt req show ?thesis
      by (simp add: queried_def HandleDiagnostic_def IncludeFixer_fix_def Let_def symbolsOf_simps
            take_snoc_budget)
  qed
qed

lemma HandleDiagnostic_no_fixer:
  "FixIncludes st = None \<Longrightarrow> FixIncludes (HandleDiagnostic A L I st) = None"
  by (simp add: HandleDiagnostic_def Let_def)

lemma handleAll_queried:
  "queried n syms st \<Longrightarrow> queried n (syms @ symbolsOf ds) (handleAll A ds st)"
proof (induction ds arbitrary: syms st)
  case Nil
  then show ?case by (simp add: symbolsOf_simps)
next
  case (Cons d ds)
  obtain L I where d: "d = (L, I)" by (cases d)
  from HandleDiagnostic_queried[OF Cons.prems, of L I A]
  have "queried n (syms @ symbolsOf [(L, I)]) (HandleDiagnostic A L I st)" .
  from Cons.IH[OF this] d show ?case by (simp add: symbolsOf_simps)
qed

lemma handleAll_no_fixer:
  "FixIncludes st = None \<Longrightarrow> FixIncludes (handleAll A ds st) = None"
  by (induction ds arbitrary: st) (auto simp: HandleDiagnostic_no_fixer)

lemma dispatch_queried:
  assumes "queried n syms st"
  shows "queried n (syms @ symbolsOf [(L, I). DiagnosticEv L I \<leftarrow> [ev]]) (snd (dispatch H A C ev st))"
proof (cases ev)
  case (DiagnosticEv L I)
  with HandleDiagnostic_queried[OF assms, of L I A] show ?thesis by simp
qed (use assms in \<open>auto simp: queried_def symbolsOf_simps split: prod.splits\<close>)

lemma dispatch_no_fixer:
  "FixIncludes st = None \<Longrightarrow> FixIncludes (snd (dispatch H A C ev st)) = None"
  by (cases ev) (auto simp: HandleDiagnostic_no_fixer split: prod.splits)

lemma runEvents_queried:
  assumes "runEvents H A C evs st = (Returned u, st')" and "queried n syms st"
  shows "queried n (syms @ symbolsOf [(L, I). DiagnosticEv L I \<leftarrow> evs]) st'"
  using assms
proof (induction evs arbitrary: st syms)
  case Nil
  then show ?case by (simp add: symbolsOf_simps)
next
  case (Cons ev evs)
  obtain r st1 where d: "dispatch H A C ev st = (r, st1)" by (cases "dispatch H A C ev st")
  with Cons.prems(1) obtain u1 where "r = Returned u1"
    and run: "runEvents H A C evs st1 = (Returned u, st')"
    by (cases r) auto
  from dispatch_queried[OF Cons.prems(2), of ev H A C] d
  have "queried n (syms @ symbolsOf [(L, I). DiagnosticEv L I \<leftarrow> [ev]]) st1" by simp
  from Cons.IH[OF run this] show ?case by (simp add: symbolsOf_simps)
qed

lemma runEvents_no_fixer:
  "FixIncludes st = None \<Longrightarrow> FixIncludes (snd (runEvents H A C evs st)) = None"
proof (induction evs arbitrary: st)
  case Nil
  then show ?case by simp
next
  case (Cons ev evs)
  from dispatch_no_fixer[OF Cons.prems, of H A C ev]
  show ?case by (cases "dispatch H A C ev st") (auto simp: Cons.IH split: Outcome.splits)
qed

lemma setupFixIncludes_installed:
  "setupFixIncludes Filename Preamble Index Opts BuildDir \<noteq> None \<longleftrightarrow>
     SuggestMissingIncludes Opts \<and> Index \<noteq> None \<and> BuildDir \<noteq> None"
  by (simp add: setupFixIncludes_def split: option.splits)

lemma initialState_queried:
  "SuggestMissingIncludes Opts \<Longrightarrow> Index \<noteq> None \<Longrightarrow> BuildDir \<noteq> None \<Longrightarrow>
   queried 5 [] (initialState FE Preamble (setupFixIncludes Filename Preamble Index Opts BuildDir))"
  by (auto simp: queried_def initialState_def setupFixIncludes_def split: option.splits)

lemma effectsOf_queried: "queried n syms st \<Longrightarrow> IndexQueries (effectsOf lg st) = take n syms"
  by (auto simp: queried_def effectsOf_def split: option.splits)

lemma effectsOf_no_fixer: "FixIncludes st = None \<Longrightarrow> IndexQueries (effectsOf lg st) = []"
  by (simp add: effectsOf_def)

lemma build_Some_queries:
  assumes "build FE H CI CIDiags Preamble Buffer Vfs Index Opts = (Returned (Some AST), Eff)"
  shows "IndexQueries Eff =
           (if SuggestMissingIncludes Opts \<and> Index \<noteq> None \<and> getCurrentWorkingDirectory FE Vfs \<noteq> None
            then take 5 (symbolsOf ([(L, I). DiagnosticEv L I \<leftarrow> fst (Execute FE (AST_Clang AST))] @
                                    matchAST FE (AST_LocalTopLevelDecls AST)))
            else [])"
proof -
  let ?A = "LevelAdjuster H (Some (createContext FE (ClangTidyOpts Opts)))"
  let ?Fx = "setupFixIncludes (getBufferName Buffer) Preamble Index Opts
                 (getCurrentWorkingDirectory FE Vfs)"
  from assms obtain Clang0 Clang1 Events Err u st where
    "prepareCompilerInstance FE (CI\<lparr>DisableFree := False\<rparr>) (map_option PD_Preamble Preamble)
       Buffer Vfs = Some Clang0"
    and "BeginSourceFile FE Clang0 (MainInputFile Clang0) = Some Clang1"
    and e: "Execute FE (setupCallbacks (createChecks FE (ClangTidyOpts Opts)) Preamble Clang1) =
           (Events, Err)"
    and run: "runEvents H ?A
           (setupCallbacks (createChecks FE (ClangTidyOpts Opts)) Preamble Clang1) Events
           (initialState FE Preamble ?Fx) = (Returned u, st)"
    and asm: "assemble FE ?A
           (Some (createContext FE (ClangTidyOpts Opts))) CIDiags Preamble
           (setupCallbacks (createChecks FE (ClangTidyOpts Opts)) Preamble Clang1)
           (case Err of None \<Rightarrow> [] | Some E \<Rightarrow> [ExecuteFailed (MainInputFile Clang0) E])
           st = (Returned (Some AST), Eff)"
    by (rule build_SomeE)
  let ?st' = "handleAll ?A (matchAST FE (TopLevelDecls st)) st"
  from asm have c: "AST_Clang AST = setupCallbacks (createChecks FE (ClangTidyOpts Opts)) Preamble Clang1"
    and l: "AST_LocalTopLevelDecls AST = TopLevelDecls st"
    and eff: "Eff = effectsOf (case Err of None \<Rightarrow> [] | Some E \<Rightarrow> [ExecuteFailed (MainInputFile Clang0) E]) ?st'"
    by (auto simp: assemble_result)
  show ?thesis
  proof (cases "SuggestMissingIncludes Opts \<and> Index \<noteq> None \<and> getCurrentWorkingDirectory FE Vfs \<noteq> None")
    case True
    then have "queried 5 [] (initialState FE Preamble ?Fx)"
      by (simp add: initialState_queried)
    from runEvents_queried[OF run this]
    have "queried 5 (symbolsOf [(L, I). DiagnosticEv L I \<leftarrow> Events]) st" by simp
    from handleAll_queried[OF this, of "matchAST FE (TopLevelDecls st)" ?A]
    have "queried 5 (symbolsOf ([(L, I). DiagnosticEv L I \<leftarrow> Events] @ matchAST FE (TopLevelDecls st))) ?st'"
      by (simp add: symbolsOf_simps)
    from effectsOf_queried[OF this] True eff c l e show ?thesis by simp
  next
    case False
    then have "?Fx = None"
      using setupFixIncludes_installed[of "getBufferName Buffer" Preamble Index Opts
          "getCurrentWorkingDirectory FE Vfs"] by blast
    then have "FixIncludes (initialState FE Preamble ?Fx) = None"
      by (simp add: initialState_simps)
    from runEvents_no_fixer[OF this, of H ?A
        "setupCallbacks (createChecks FE (ClangTidyOpts Opts)) Preamble Clang1" Events] run
    have "FixIncludes st = None"
      by simp
    then have "FixIncludes ?st' = None" by (rule handleAll_no_fixer)
    from effectsOf_no_fixer[OF this] eff have q: "IndexQueries Eff = []" by simp
    show ?thesis by (simp only: q False if_False)
  qed
qed

subsection \<open>The concrete build, evaluated\<close>

lemma ex_replays:
  "replays exSM exIncA" "replays exSM exIncB" "replays exSM exIncC"
  by (simp_all add: replays_def replayBody_def WrittenFilename_def drop_front_def drop_back_def
        getRawIdentifier_def Let_def exSM_def exLexer_def exMainFile_def exIncA_def exIncB_def
        exIncC_def)

lemma ex_replayLoop:
  "replayLoop exSM [exIncA, exIncB, exIncC] =
     (Returned (), concat (map (replayOne exSM) [exIncA, exIncB, exIncC]))"
  by (rule replayLoop_complete) (simp add: ex_replays)

lemma ex_builtin: "getBufferIdentifier exSM 1 = ''<built-in>''"
  by (simp add: exSM_def)

lemma ex_builtin': "getBufferIdentifier exSM (Suc 0) = ''<built-in>''"
  by (simp add: exSM_def)

lemma ex_clang2:
  "getPPCallbacks exClang2 =
     [CollectMainFileMacros, CollectIncludeStructure, ReplayPreambleCallbacks, CheckPPCallbacks ''R'']"
  "getSourceManager exClang2 = exSM"
  "MainInputFile exClang2 = ''main.cpp''"
  by (simp_all add: exClang2_def setupCallbacks_def attach_def addPPCallbacks_def Let_def exFE_def
        exClang_def)

lemma ex_first_event:
  "fst (dispatch exH A exClang2 (FileChangedEv 0 ExitFile C_User 1) exState0) = Returned ()"
  by (simp add: ex_clang2 exState0_def FileChanged_def replay_def ex_replayLoop
        ex_builtin ex_builtin' initialState_def exPreamble_def del: replayLoop.simps)

lemma ex_run_outcome:
  "fst (runEvents exH A exClang2 exEvents exState0) = Returned ()"
proof -
  obtain st1 where d: "dispatch exH A exClang2 (FileChangedEv 0 ExitFile C_User 1) exState0 =
      (Returned (), st1)"
    using ex_first_event[of A]
    by (cases "dispatch exH A exClang2 (FileChangedEv 0 ExitFile C_User 1) exState0") auto
  have "fst (runEvents exH A exClang2 (tl exEvents) st1) = Returned ()"
    by (rule runEvents_Returned) (simp add: exEvents_def)
  with d show ?thesis by (simp add: exEvents_def)
qed

lemma ex_prepare:
  "prepareCompilerInstance exFE (exCI\<lparr>DisableFree := False\<rparr>)
     (map_option PD_Preamble (Some exPreamble)) exBuffer exVfsCached = Some exClang1"
  by (simp add: exFE_def exCI_def exBuffer_def exClang1_def)

lemma ex_begin: "BeginSourceFile exFE exClang1 (MainInputFile exClang1) = Some exClang1"
  by (simp add: exFE_def exClang1_def exClang_def)

lemma ex_execute: "Execute exFE C = (exEvents, Some ''fatal error'')"
  by (simp add: exFE_def)

lemma ex_matchAST: "matchAST exFE Ds = [(Warning, exInfoHeader)]"
  by (simp add: exFE_def)

lemma ex_context: "createContext exFE T = exCtx"
  by (simp add: exFE_def)

lemma ex_early: "earlyDiagnostics exFE = []"
  by (simp add: exFE_def)

lemma ex_setup: "setupCallbacks (createChecks exFE (ClangTidyOpts exOpts)) (Some exPreamble) exClang1 = exClang2"
  by (simp add: exClang2_def exClang1_def)

lemma ex_initial:
  "initialState exFE (Some exPreamble)
     (setupFixIncludes (getBufferName exBuffer) (Some exPreamble) (Some exIndex) exOpts
        (getCurrentWorkingDirectory exFE exVfsCached)) = exState0"
  by (simp add: exState0_def exBuffer_def exFE_def exVfsCached_def)

lemma ex_not_aborted:
  "fst (build exFE exH exCI [exCfgDiag] (Some exPreamble) exBuffer exVfsCached (Some exIndex) exOpts)
     \<noteq> AssertionFailed"
proof -
  obtain st where run:
    "runEvents exH (LevelAdjuster exH (Some (createContext exFE (ClangTidyOpts exOpts))))
       (setupCallbacks (createChecks exFE (ClangTidyOpts exOpts)) (Some exPreamble) exClang1) exEvents
       (initialState exFE (Some exPreamble)
          (setupFixIncludes (getBufferName exBuffer) (Some exPreamble) (Some exIndex) exOpts
             (getCurrentWorkingDirectory exFE exVfsCached))) = (Returned (), st)"
    using ex_run_outcome[of "LevelAdjuster exH (Some (createContext exFE (ClangTidyOpts exOpts)))"]
    unfolding ex_setup ex_initial
    by (cases "runEvents exH (LevelAdjuster exH (Some (createContext exFE (ClangTidyOpts exOpts))))
                 exClang2 exEvents exState0") auto
  from build_started[OF ex_prepare ex_begin ex_execute run, of "[exCfgDiag]"]
  show ?thesis by (simp add: assemble_result)
qed

lemma ex_build_returns:
  "\<exists>AST Eff. build exFE exH exCI [exCfgDiag] (Some exPreamble) exBuffer exVfsCached (Some exIndex)
       exOpts = (Returned (Some AST), Eff) \<and>
     AST_LocalTopLevelDecls AST = [exDeclX] \<and> AST_Tokens AST = [''int'', ''x''] \<and>
     Log Eff = [ExecuteFailed ''main.cpp'' ''fatal error'']"
proof -
  let ?b = "build exFE exH exCI [exCfgDiag] (Some exPreamble) exBuffer exVfsCached (Some exIndex)
              exOpts"
  obtain st where run:
    "runEvents exH (LevelAdjuster exH (Some (createContext exFE (ClangTidyOpts exOpts))))
       (setupCallbacks (createChecks exFE (ClangTidyOpts exOpts)) (Some exPreamble) exClang1) exEvents
       (initialState exFE (Some exPreamble)
          (setupFixIncludes (getBufferName exBuffer) (Some exPreamble) (Some exIndex) exOpts
             (getCurrentWorkingDirectory exFE exVfsCached))) = (Returned (), st)"
    using ex_run_outcome[of "LevelAdjuster exH (Some (createContext exFE (ClangTidyOpts exOpts)))"]
    unfolding ex_setup ex_initial
    by (cases "runEvents exH (LevelAdjuster exH (Some (createContext exFE (ClangTidyOpts exOpts))))
                 exClang2 exEvents exState0") auto
  note s = build_started[OF ex_prepare ex_begin ex_execute run, of "[exCfgDiag]"]
  from s have "\<exists>AST. fst ?b = Returned (Some AST)"
    and lg: "Log (snd ?b) = [ExecuteFailed ''main.cpp'' ''fatal error'']"
    by (simp_all add: assemble_result effectsOf_Log exClang1_def)
  then obtain AST where "fst ?b = Returned (Some AST)" by blast
  then have b: "?b = (Returned (Some AST), snd ?b)"
    by (simp add: prod_eq_iff)
  from build_Some_collected[OF b]
  have "AST_LocalTopLevelDecls AST = [exDeclX]" and "AST_Tokens AST = [''int'', ''x'']"
    by (simp_all add: ex_execute exEvents_def HandleTopLevelDecl_filter keeps_def exH_def
          exDeclX_def exDeclHeader_def exDeclInst_def exDeclObjC_def isa_NamedDecl_def
          isa_ObjCMethodDecl_def)
  with b lg show ?thesis by blast
qed

section \<open>The claims\<close>

text \<open>
  Claim C1. When the session cannot begin, \<^verbatim>\<open>build\<close> returns no \<^verbatim>\<open>ParsedAST\<close> and
  logs the event with the file. The build returns \<^verbatim>\<open>None\<close> on both failures
  (\<open>build_prepare_failed\<close>, \<open>build_begin_failed\<close>), and the failure of
  \<^verbatim>\<open>BeginSourceFile\<close> is logged with the main input's file. The failure of
  \<^verbatim>\<open>prepareCompilerInstance\<close> is not: on an invocation whose target cannot be created the
  build returns \<^verbatim>\<open>None\<close> and its log is empty.
\<close>

theorem build_prepare_failure_is_not_logged:
  "build exFE exH (exCI\<lparr>CommandLine := [''clang'', ''--target=none'', ''main.cpp'']\<rparr>) [exCfgDiag]
     None exBuffer exVfs (Some exIndex) exOpts =
   (Returned None, \<lparr>Log = [], IndexQueries = [], Replayed = []\<rparr>)"
  by (simp add: build_def Let_def noEffects_def exFE_def exCI_def)

text \<open>
  Claim C2. The diagnostics of the result are the diagnostics of the compiler invocation,
  then the preamble's if there is a preamble (nothing otherwise), then the diagnostics
  \<open>D\<close> of this build; and \<open>D\<close> holds what \<open>ASTDiags\<close> had stored before, then one
  diagnostic for each one reported while \<^verbatim>\<open>Execute\<close> ran and then by the matchers, in
  that order, with its adjusted level.
\<close>

theorem build_diagnostics_order:
  assumes "build FE H CI CIDiags Preamble Buffer Vfs Index Opts = (Returned (Some AST), Eff)"
  shows "\<exists>D. AST_Diags AST =
               CIDiags @ (case Preamble of None \<Rightarrow> [] | Some P \<Rightarrow> PD_Diags P) @ D \<and>
             map (\<lambda>d. (ID d, Severity d)) D =
               map (\<lambda>d. (ID d, Severity d)) (earlyDiagnostics FE) @
               map (\<lambda>(L, I). (getID I,
                      LevelAdjuster H (Some (createContext FE (ClangTidyOpts Opts))) L I))
                 ([(L, I). DiagnosticEv L I \<leftarrow> fst (Execute FE (AST_Clang AST))] @
                  matchAST FE (AST_LocalTopLevelDecls AST))"
proof -
  let ?A = "LevelAdjuster H (Some (createContext FE (ClangTidyOpts Opts)))"
  from assms obtain Clang0 Clang1 Events Err u st where
    "prepareCompilerInstance FE (CI\<lparr>DisableFree := False\<rparr>) (map_option PD_Preamble Preamble)
       Buffer Vfs = Some Clang0"
    and "BeginSourceFile FE Clang0 (MainInputFile Clang0) = Some Clang1"
    and e: "Execute FE (setupCallbacks (createChecks FE (ClangTidyOpts Opts)) Preamble Clang1) =
           (Events, Err)"
    and run: "runEvents H ?A
           (setupCallbacks (createChecks FE (ClangTidyOpts Opts)) Preamble Clang1) Events
           (initialState FE Preamble
              (setupFixIncludes (getBufferName Buffer) Preamble Index Opts
                 (getCurrentWorkingDirectory FE Vfs))) = (Returned u, st)"
    and asm: "assemble FE ?A
           (Some (createContext FE (ClangTidyOpts Opts))) CIDiags Preamble
           (setupCallbacks (createChecks FE (ClangTidyOpts Opts)) Preamble Clang1)
           (case Err of None \<Rightarrow> [] | Some E \<Rightarrow> [ExecuteFailed (MainInputFile Clang0) E])
           st = (Returned (Some AST), Eff)"
    by (rule build_SomeE)
  let ?D = "take_diags (Some (createContext FE (ClangTidyOpts Opts)))
              (ASTDiags (handleAll ?A (matchAST FE (TopLevelDecls st)) st))"
  from asm have d: "AST_Diags AST =
      CIDiags @ (case Preamble of None \<Rightarrow> [] | Some P \<Rightarrow> PD_Diags P) @ ?D"
    and c: "AST_Clang AST = setupCallbacks (createChecks FE (ClangTidyOpts Opts)) Preamble Clang1"
    and l: "AST_LocalTopLevelDecls AST = TopLevelDecls st"
    by (auto simp: assemble_result)
  note k = collected_diags[OF run, of "Some (createContext FE (ClangTidyOpts Opts))"]
  from d c l e k show ?thesis by simp
qed

theorem build_diagnostics_order_witness:
  "\<exists>AST Eff D. build exFE exH exCI [exCfgDiag] (Some exPreamble) exBuffer exVfsCached (Some exIndex)
       exOpts = (Returned (Some AST), Eff) \<and>
     AST_Diags AST = [exCfgDiag] @ [exPreDiag] @ D \<and>
     map (\<lambda>d. (ID d, Severity d)) D =
       [(1, Error), (2, Ignored), (10, Error), (10, Error), (10, Error), (10, Error), (10, Error),
        (10, Error), (2, Warning)]"
proof -
  from ex_build_returns obtain AST Eff where
    b: "build exFE exH exCI [exCfgDiag] (Some exPreamble) exBuffer exVfsCached (Some exIndex)
          exOpts = (Returned (Some AST), Eff)"
    by blast
  from build_diagnostics_order[OF b] obtain D where
    d: "AST_Diags AST = [exCfgDiag] @ (case Some exPreamble of None \<Rightarrow> [] | Some P \<Rightarrow> PD_Diags P) @ D"
    and k: "map (\<lambda>d. (ID d, Severity d)) D =
               map (\<lambda>d. (ID d, Severity d)) (earlyDiagnostics exFE) @
               map (\<lambda>(L, I). (getID I,
                      LevelAdjuster exH (Some (createContext exFE (ClangTidyOpts exOpts))) L I))
                 ([(L, I). DiagnosticEv L I \<leftarrow> fst (Execute exFE (AST_Clang AST))] @
                  matchAST exFE (AST_LocalTopLevelDecls AST))"
    by blast
  from d have d': "AST_Diags AST = [exCfgDiag] @ [exPreDiag] @ D"
    by (simp add: exPreamble_def)
  from k have k': "map (\<lambda>d. (ID d, Severity d)) D =
       [(1, Error), (2, Ignored), (10, Error), (10, Error), (10, Error), (10, Error), (10, Error),
        (10, Error), (2, Warning)]"
    by (simp add: ex_execute ex_matchAST ex_context ex_early exEvents_def LevelAdjuster_def Let_def
          exH_def exCtx_def exInfoR_def exInfoS_def exInfoUnknown_def exInfoHeader_def)
  show ?thesis
    by (rule exI[of _ AST], rule exI[of _ Eff], rule exI[of _ D]) (simp only: b d' k' simp_thms)
qed

text \<open>
  Claim C3. Every declaration among the local top-level declarations of a result is
  located inside the main file, is not a named declaration that is an implicit template
  instantiation, and is not an \<^verbatim>\<open>ObjCMethodDecl\<close>.
\<close>

theorem build_top_level_decls_in_main_file:
  assumes "build FE H CI CIDiags Preamble Buffer Vfs Index Opts = (Returned (Some AST), Eff)"
  shows "\<forall>D \<in> set (AST_LocalTopLevelDecls AST).
           isInsideMainFile H (declLocation D) \<and>
           \<not> (isa_NamedDecl D \<and> isImplicitTemplateInstantiation H D) \<and>
           \<not> isa_ObjCMethodDecl D"
proof -
  from assms obtain Clang0 Clang1 Events Err u st where
    "prepareCompilerInstance FE (CI\<lparr>DisableFree := False\<rparr>) (map_option PD_Preamble Preamble)
       Buffer Vfs = Some Clang0"
    and "BeginSourceFile FE Clang0 (MainInputFile Clang0) = Some Clang1"
    and "Execute FE (setupCallbacks (createChecks FE (ClangTidyOpts Opts)) Preamble Clang1) =
           (Events, Err)"
    and run: "runEvents H (LevelAdjuster H (Some (createContext FE (ClangTidyOpts Opts))))
           (setupCallbacks (createChecks FE (ClangTidyOpts Opts)) Preamble Clang1) Events
           (initialState FE Preamble
              (setupFixIncludes (getBufferName Buffer) Preamble Index Opts
                 (getCurrentWorkingDirectory FE Vfs))) = (Returned u, st)"
    and asm: "assemble FE (LevelAdjuster H (Some (createContext FE (ClangTidyOpts Opts))))
           (Some (createContext FE (ClangTidyOpts Opts))) CIDiags Preamble
           (setupCallbacks (createChecks FE (ClangTidyOpts Opts)) Preamble Clang1)
           (case Err of None \<Rightarrow> [] | Some E \<Rightarrow> [ExecuteFailed (MainInputFile Clang0) E])
           st = (Returned (Some AST), Eff)"
    by (rule build_SomeE)
  from asm have decls: "AST_LocalTopLevelDecls AST = TopLevelDecls st"
    by (auto simp: assemble_result)
  have "list_all (keeps H) (TopLevelDecls (snd (runEvents H
           (LevelAdjuster H (Some (createContext FE (ClangTidyOpts Opts))))
           (setupCallbacks (createChecks FE (ClangTidyOpts Opts)) Preamble Clang1) Events
           (initialState FE Preamble
              (setupFixIncludes (getBufferName Buffer) Preamble Index Opts
                 (getCurrentWorkingDirectory FE Vfs))))))"
    by (rule runEvents_keeps) (simp add: initialState_simps)
  with run decls have "list_all (keeps H) (AST_LocalTopLevelDecls AST)" by simp
  then show ?thesis by (simp add: list_all_iff keeps_def)
qed

theorem build_top_level_decls_in_main_file_witness:
  "\<exists>AST Eff. build exFE exH exCI [exCfgDiag] (Some exPreamble) exBuffer exVfsCached (Some exIndex)
       exOpts = (Returned (Some AST), Eff) \<and>
     AST_LocalTopLevelDecls AST = [exDeclX] \<and>
     isInsideMainFile exH (declLocation exDeclX) \<and>
     \<not> (isa_NamedDecl exDeclX \<and> isImplicitTemplateInstantiation exH exDeclX) \<and>
     \<not> isa_ObjCMethodDecl exDeclX"
proof -
  from ex_build_returns obtain AST Eff where
    b: "build exFE exH exCI [exCfgDiag] (Some exPreamble) exBuffer exVfsCached (Some exIndex)
          exOpts = (Returned (Some AST), Eff)"
    and l: "AST_LocalTopLevelDecls AST = [exDeclX]"
    by blast
  from build_top_level_decls_in_main_file[OF b] l
  have "isInsideMainFile exH (declLocation exDeclX) \<and>
     \<not> (isa_NamedDecl exDeclX \<and> isImplicitTemplateInstantiation exH exDeclX) \<and>
     \<not> isa_ObjCMethodDecl exDeclX"
    by simp
  with b l show ?thesis by blast
qed

text \<open>
  Claim C4 as it is stated, for every build with a preamble, does not hold: the replay is
  attached only when somebody is listening. In the build below the checks register no
  preprocessor callbacks, so \<^verbatim>\<open>attach\<close> registers nothing: the build returns a
  \<^verbatim>\<open>ParsedAST\<close>, its preamble holds three main-file include records, the preprocessor
  leaves \<^verbatim>\<open><built-in>\<close>, and no notification is replayed.
\<close>

theorem build_without_listener_replays_nothing:
  "fst (build exQuietFE exH exCI [exCfgDiag] (Some exPreamble) exBuffer exVfsCached (Some exIndex)
          exOpts) \<noteq> AssertionFailed \<and>
   fst (build exQuietFE exH exCI [exCfgDiag] (Some exPreamble) exBuffer exVfsCached (Some exIndex)
          exOpts) \<noteq> Returned None \<and>
   length (MainFileIncludes (PD_Includes exPreamble)) = 3 \<and>
   length (filter (builtinExit exSM) exEvents) = 1 \<and>
   Replayed (snd (build exQuietFE exH exCI [exCfgDiag] (Some exPreamble) exBuffer exVfsCached
                    (Some exIndex) exOpts)) = []"
proof -
  let ?A = "LevelAdjuster exH (Some (createContext exQuietFE (ClangTidyOpts exOpts)))"
  let ?C = "setupCallbacks (createChecks exQuietFE (ClangTidyOpts exOpts)) (Some exPreamble) exClang1"
  let ?st0 = "initialState exQuietFE (Some exPreamble)
                (setupFixIncludes (getBufferName exBuffer) (Some exPreamble) (Some exIndex) exOpts
                   (getCurrentWorkingDirectory exQuietFE exVfsCached))"
  have p: "prepareCompilerInstance exQuietFE (exCI\<lparr>DisableFree := False\<rparr>)
             (map_option PD_Preamble (Some exPreamble)) exBuffer exVfsCached = Some exClang1"
    by (simp add: exQuietFE_def exFE_def exCI_def exBuffer_def exClang1_def)
  have b: "BeginSourceFile exQuietFE exClang1 (MainInputFile exClang1) = Some exClang1"
    by (simp add: exQuietFE_def exFE_def exClang1_def exClang_def)
  have e: "Execute exQuietFE ?C = (exEvents, Some ''fatal error'')"
    by (simp add: exQuietFE_def exFE_def)
  have "getPPCallbacks (registerChecks (createChecks exQuietFE (ClangTidyOpts exOpts)) exClang1) = []"
    by (simp add: exQuietFE_def exFE_def exClang1_def exClang_def)
  then have q: "ReplayPreambleCallbacks \<notin> set (getPPCallbacks ?C)"
    by (simp only: setupCallbacks_listening simp_thms)
  obtain r st where run: "runEvents exH ?A ?C exEvents ?st0 = (r, st)"
    by (cases "runEvents exH ?A ?C exEvents ?st0")
  from runEvents_quiet[OF q, of exH ?A exEvents ?st0] run
  have r: "r = Returned ()" and d: "Delegated st = []"
    by (simp_all add: initialState_simps)
  note s = build_started[OF p b e run, of "[exCfgDiag]"]
  have n: "length (MainFileIncludes (PD_Includes exPreamble)) = 3"
    by (simp add: exPreamble_def)
  have x: "length (filter (builtinExit exSM) exEvents) = 1"
    by (simp add: exEvents_def builtinExit_def ex_builtin ex_builtin')
  from s r d have "fst (build exQuietFE exH exCI [exCfgDiag] (Some exPreamble) exBuffer exVfsCached
      (Some exIndex) exOpts) \<noteq> AssertionFailed"
    and "fst (build exQuietFE exH exCI [exCfgDiag] (Some exPreamble) exBuffer exVfsCached
      (Some exIndex) exOpts) \<noteq> Returned None"
    and "Replayed (snd (build exQuietFE exH exCI [exCfgDiag] (Some exPreamble) exBuffer exVfsCached
                    (Some exIndex) exOpts)) = []"
    by (simp_all add: assemble_result effectsOf_def handleAll_frame)
  with n x show ?thesis by simp
qed

text \<open>
  Claim C4, amended. Take a build with a preamble that no assertion stops. When a
  preprocessor listener is registered by the time the replay attaches, the records
  replayed are \<open>Rs\<close>: at each exit from \<^verbatim>\<open><built-in>\<close>, the records the include
  structure holds by then; these are the \<open>N\<close> records of the preamble when the
  preprocessor leaves \<^verbatim>\<open><built-in>\<close> once and no include was collected before. When no
  listener is registered, \<open>Rs\<close> is empty. The replay delivers two notifications for each
  record of \<open>Rs\<close>, in their order, and nothing else: an \<^verbatim>\<open>InclusionDirective\<close> with
  the written name without its delimiters and the angled flag of the written form, and
  then \<^verbatim>\<open>FileNotFound\<close> when the record's file does not resolve and \<^verbatim>\<open>FileSkipped\<close>
  when it does; the records after an unresolved one are replayed all the same.
\<close>

theorem build_replays_preamble_includes:
  assumes p: "prepareCompilerInstance FE (CI\<lparr>DisableFree := False\<rparr>) (Some (PD_Preamble P))
                Buffer Vfs = Some Clang0"
    and b: "BeginSourceFile FE Clang0 (MainInputFile Clang0) = Some Clang1"
    and e: "Execute FE (setupCallbacks (createChecks FE (ClangTidyOpts Opts)) (Some P) Clang1) =
              (Events, Err)"
    and na: "fst (build FE H CI CIDiags (Some P) Buffer Vfs Index Opts) \<noteq> AssertionFailed"
  shows "\<exists>AST Eff Rs.
           build FE H CI CIDiags (Some P) Buffer Vfs Index Opts = (Returned (Some AST), Eff) \<and>
           Rs = (if getPPCallbacks (registerChecks (createChecks FE (ClangTidyOpts Opts)) Clang1) = []
                 then []
                 else replayedRecords (getSourceManager Clang1)
                        (MainFileIncludes (PD_Includes P)) Events) \<and>
           (getPPCallbacks (registerChecks (createChecks FE (ClangTidyOpts Opts)) Clang1) \<noteq> [] \<and>
            length (filter (builtinExit (getSourceManager Clang1)) Events) = 1 \<and>
            [Inc. IncludeCollectedEv Inc \<leftarrow>
               takeWhile (\<lambda>ev. \<not> builtinExit (getSourceManager Clang1) ev) Events] = [] \<longrightarrow>
            Rs = MainFileIncludes (PD_Includes P)) \<and>
           length (Replayed Eff) = 2 * length Rs \<and>
           length [A. InclusionDirective A \<leftarrow> Replayed Eff] = length Rs \<and>
           [(FileName A, IsAngled A). InclusionDirective A \<leftarrow> Replayed Eff] =
             map (\<lambda>Inc. (butlast (drop 1 (Written Inc)), startswith (Written Inc) ''<'')) Rs \<and>
           (\<forall>i < length Rs.
              (\<exists>A. Replayed Eff ! (2 * i) = InclusionDirective A) \<and>
              Replayed Eff ! (2 * i + 1) =
                (case (if Resolved (Rs ! i) \<noteq> []
                       then getFile (getSourceManager Clang1) (Resolved (Rs ! i)) else None) of
                   None \<Rightarrow> FileNotFound (butlast (drop 1 (Written (Rs ! i))))
                 | Some F \<Rightarrow>
                     FileSkipped (getName F) F
                       (snd (snd (RawLexer (getSourceManager Clang1)
                                    (getMainFileData (getSourceManager Clang1))
                                    (HashOffset (Rs ! i)))))
                       (FileKind (Rs ! i))))"
proof -
  let ?Cs = "createChecks FE (ClangTidyOpts Opts)"
  let ?A = "LevelAdjuster H (Some (createContext FE (ClangTidyOpts Opts)))"
  let ?C = "setupCallbacks ?Cs (Some P) Clang1"
  let ?S = "getSourceManager Clang1"
  let ?st0 = "initialState FE (Some P)
                (setupFixIncludes (getBufferName Buffer) (Some P) Index Opts
                   (getCurrentWorkingDirectory FE Vfs))"
  have S: "getSourceManager ?C = ?S" by (rule setupCallbacks_SM)
  from p have p': "prepareCompilerInstance FE (CI\<lparr>DisableFree := False\<rparr>)
                     (map_option PD_Preamble (Some P)) Buffer Vfs = Some Clang0"
    by simp
  obtain r st where run: "runEvents H ?A ?C Events ?st0 = (r, st)"
    by (cases "runEvents H ?A ?C Events ?st0")
  note s = build_started[OF p' b e run, of CIDiags]
  from s na obtain u where r: "r = Returned u"
    by (cases r) auto
  let ?st' = "handleAll ?A (matchAST FE (TopLevelDecls st)) st"
  let ?D = "take_diags (Some (createContext FE (ClangTidyOpts Opts))) (ASTDiags ?st')"
  let ?AST = "\<lparr>AST_Preamble = Some P, AST_Clang = ?C, AST_Tokens = CollectTokens st,
        AST_Macros = MacrosVar ?st',
        AST_Diags = CIDiags @ PD_Diags P @ ?D,
        AST_LocalTopLevelDecls = TopLevelDecls st,
        AST_Includes = IncludesVar ?st',
        AST_CanonIncludes = CanonIncludesVar ?st'\<rparr>"
  let ?Eff = "effectsOf (case Err of None \<Rightarrow> [] | Some E \<Rightarrow> [ExecuteFailed (MainInputFile Clang0) E])
                ?st'"
  from s r have bd: "build FE H CI CIDiags (Some P) Buffer Vfs Index Opts =
      (Returned (Some ?AST), ?Eff)"
    by (simp add: assemble_result)
  have rep: "Replayed ?Eff = Delegated st"
    by (simp add: effectsOf_def handleAll_frame)
  define Rs where "Rs =
    (if getPPCallbacks (registerChecks ?Cs Clang1) = [] then []
     else replayedRecords ?S (MainFileIncludes (PD_Includes P)) Events)"
  have key: "Delegated st = concat (map (replayOne ?S) Rs) \<and> list_all (replays ?S) Rs"
  proof (cases "getPPCallbacks (registerChecks ?Cs Clang1) = []")
    case True
    then have q: "ReplayPreambleCallbacks \<notin> set (getPPCallbacks ?C)"
      by (simp only: setupCallbacks_listening simp_thms)
    from runEvents_quiet[OF q, of H ?A Events ?st0] run have "Delegated st = []"
      by (simp add: initialState_simps)
    with True show ?thesis by (simp add: Rs_def)
  next
    case False
    then have l: "ReplayPreambleCallbacks \<in> set (getPPCallbacks ?C)"
      by (simp only: setupCallbacks_listening simp_thms)
    from run r have run': "runEvents H ?A ?C Events ?st0 = (Returned u, st)" by simp
    from runEvents_replays[OF run' l] False show ?thesis
      by (simp add: Rs_def S initialState_simps)
  qed
  then have evs: "Replayed ?Eff = concat (map (replayOne ?S) Rs)" and ok: "list_all (replays ?S) Rs"
    using rep by simp_all
  have c1: "Rs = (if getPPCallbacks (registerChecks ?Cs Clang1) = [] then []
                  else replayedRecords ?S (MainFileIncludes (PD_Includes P)) Events)"
    by (rule Rs_def)
  have c2: "getPPCallbacks (registerChecks ?Cs Clang1) \<noteq> [] \<and>
            length (filter (builtinExit ?S) Events) = 1 \<and>
            [Inc. IncludeCollectedEv Inc \<leftarrow> takeWhile (\<lambda>ev. \<not> builtinExit ?S ev) Events] = [] \<longrightarrow>
            Rs = MainFileIncludes (PD_Includes P)"
    by (auto simp: Rs_def replayedRecords_once)
  have c3: "length (Replayed ?Eff) = 2 * length Rs"
    by (simp only: evs replayed_length[OF ok])
  have sp: "[(FileName A, IsAngled A). InclusionDirective A \<leftarrow> Replayed ?Eff] =
             map (\<lambda>Inc. (butlast (drop 1 (Written Inc)), startswith (Written Inc) ''<'')) Rs"
    by (simp only: evs replayed_spelling[OF ok])
  have "length [A. InclusionDirective A \<leftarrow> Replayed ?Eff] =
          length [(FileName A, IsAngled A). InclusionDirective A \<leftarrow> Replayed ?Eff]"
    by (simp only: spelling_of_inclusions length_map)
  then have c4: "length [A. InclusionDirective A \<leftarrow> Replayed ?Eff] = length Rs"
    by (simp only: sp length_map)
  have c5: "\<forall>i < length Rs.
              (\<exists>A. Replayed ?Eff ! (2 * i) = InclusionDirective A) \<and>
              Replayed ?Eff ! (2 * i + 1) =
                (case (if Resolved (Rs ! i) \<noteq> [] then getFile ?S (Resolved (Rs ! i)) else None) of
                   None \<Rightarrow> FileNotFound (butlast (drop 1 (Written (Rs ! i))))
                 | Some F \<Rightarrow>
                     FileSkipped (getName F) F
                       (snd (snd (RawLexer ?S (getMainFileData ?S) (HashOffset (Rs ! i)))))
                       (FileKind (Rs ! i)))"
  proof (intro allI impI)
    fix i assume i: "i < length Rs"
    from replayed_nth[OF ok i]
    show "(\<exists>A. Replayed ?Eff ! (2 * i) = InclusionDirective A) \<and>
              Replayed ?Eff ! (2 * i + 1) =
                (case (if Resolved (Rs ! i) \<noteq> [] then getFile ?S (Resolved (Rs ! i)) else None) of
                   None \<Rightarrow> FileNotFound (butlast (drop 1 (Written (Rs ! i))))
                 | Some F \<Rightarrow>
                     FileSkipped (getName F) F
                       (snd (snd (RawLexer ?S (getMainFileData ?S) (HashOffset (Rs ! i)))))
                       (FileKind (Rs ! i)))"
      by (simp only: evs replayFollowUp_def)
  qed
  from bd c1 c2 c3 c4 sp c5 show ?thesis by blast
qed

theorem build_replays_preamble_includes_witness:
  "\<exists>AST Eff. build exFE exH exCI [exCfgDiag] (Some exPreamble) exBuffer exVfsCached (Some exIndex)
       exOpts = (Returned (Some AST), Eff) \<and>
     length (MainFileIncludes (PD_Includes exPreamble)) = 3 \<and>
     length (Replayed Eff) = 6 \<and>
     length [A. InclusionDirective A \<leftarrow> Replayed Eff] = 3 \<and>
     [(FileName A, IsAngled A). InclusionDirective A \<leftarrow> Replayed Eff] =
       [(''a.h'', True), (''b.h'', False), (''c.h'', True)] \<and>
     Replayed Eff ! 1 =
       FileSkipped ''/usr/include/a.h'' (FileEntry ''/usr/include/a.h'')
         \<lparr>getKind = tok_header_name, getTokLocation = 9, getEndLoc = 14, rawText = [],
          getIdentifierInfo = None\<rparr> C_System \<and>
     Replayed Eff ! 3 = FileNotFound ''b.h'' \<and>
     Replayed Eff ! 5 = FileNotFound ''c.h''"
proof -
  let ?S = "getSourceManager exClang1"
  have p: "prepareCompilerInstance exFE (exCI\<lparr>DisableFree := False\<rparr>)
             (Some (PD_Preamble exPreamble)) exBuffer exVfsCached = Some exClang1"
    using ex_prepare by simp
  have e: "Execute exFE (setupCallbacks (createChecks exFE (ClangTidyOpts exOpts)) (Some exPreamble)
             exClang1) = (exEvents, Some ''fatal error'')"
    by (rule ex_execute)
  from build_replays_preamble_includes[OF p ex_begin e ex_not_aborted]
  obtain AST Eff Rs where
    b: "build exFE exH exCI [exCfgDiag] (Some exPreamble) exBuffer exVfsCached (Some exIndex)
          exOpts = (Returned (Some AST), Eff)"
    and once: "getPPCallbacks (registerChecks (createChecks exFE (ClangTidyOpts exOpts)) exClang1) \<noteq> [] \<and>
            length (filter (builtinExit ?S) exEvents) = 1 \<and>
            [Inc. IncludeCollectedEv Inc \<leftarrow> takeWhile (\<lambda>ev. \<not> builtinExit ?S ev) exEvents] = [] \<longrightarrow>
            Rs = MainFileIncludes (PD_Includes exPreamble)"
    and len: "length (Replayed Eff) = 2 * length Rs"
    and n: "length [A. InclusionDirective A \<leftarrow> Replayed Eff] = length Rs"
    and sp: "[(FileName A, IsAngled A). InclusionDirective A \<leftarrow> Replayed Eff] =
             map (\<lambda>Inc. (butlast (drop 1 (Written Inc)), startswith (Written Inc) ''<'')) Rs"
    and nth: "\<forall>i < length Rs.
              (\<exists>A. Replayed Eff ! (2 * i) = InclusionDirective A) \<and>
              Replayed Eff ! (2 * i + 1) =
                (case (if Resolved (Rs ! i) \<noteq> [] then getFile ?S (Resolved (Rs ! i)) else None) of
                   None \<Rightarrow> FileNotFound (butlast (drop 1 (Written (Rs ! i))))
                 | Some F \<Rightarrow>
                     FileSkipped (getName F) F
                       (snd (snd (RawLexer ?S (getMainFileData ?S) (HashOffset (Rs ! i)))))
                       (FileKind (Rs ! i)))"
    by blast
  have sm: "?S = exSM" by (simp add: exClang1_def exClang_def)
  have l: "getPPCallbacks (registerChecks (createChecks exFE (ClangTidyOpts exOpts)) exClang1) \<noteq> []"
    by (simp add: exFE_def addPPCallbacks_def)
  have one: "length (filter (builtinExit exSM) exEvents) = 1"
    by (simp add: exEvents_def builtinExit_def ex_builtin ex_builtin')
  have pre: "[Inc. IncludeCollectedEv Inc \<leftarrow> takeWhile (\<lambda>ev. \<not> builtinExit exSM ev) exEvents] = []"
    by (simp add: exEvents_def builtinExit_def ex_builtin ex_builtin')
  from once l one pre have Rs: "Rs = [exIncA, exIncB, exIncC]"
    by (simp add: sm exPreamble_def)
  have f0: "length (MainFileIncludes (PD_Includes exPreamble)) = 3"
    by (simp add: exPreamble_def)
  from len have f1: "length (Replayed Eff) = 6" by (simp add: Rs)
  from n have f2: "length [A. InclusionDirective A \<leftarrow> Replayed Eff] = 3" by (simp add: Rs)
  from sp have f3: "[(FileName A, IsAngled A). InclusionDirective A \<leftarrow> Replayed Eff] =
       [(''a.h'', True), (''b.h'', False), (''c.h'', True)]"
    by (simp add: Rs exIncA_def exIncB_def exIncC_def startswith_def)
  from nth[rule_format, of 0] have f4: "Replayed Eff ! 1 =
       FileSkipped ''/usr/include/a.h'' (FileEntry ''/usr/include/a.h'')
         \<lparr>getKind = tok_header_name, getTokLocation = 9, getEndLoc = 14, rawText = [],
          getIdentifierInfo = None\<rparr> C_System"
    by (simp add: Rs sm exIncA_def exSM_def exLexer_def)
  from nth[rule_format, of 1] have f5: "Replayed Eff ! 3 = FileNotFound ''b.h''"
    by (simp add: Rs sm exIncB_def)
  from nth[rule_format, of 2] have f6: "Replayed Eff ! 5 = FileNotFound ''c.h''"
    by (simp add: Rs sm exIncC_def exSM_def)
  show ?thesis
    by (rule exI[of _ AST], rule exI[of _ Eff]) (simp only: b f0 f1 f2 f3 f4 f5 f6 simp_thms)
qed

text \<open>
  Claim C5. A warning of a named check that is treated as an error is adjusted to
  \<open>Error\<close>, whatever the suppression comments say: nothing is assumed of
  \<open>shouldSuppressDiagnostic\<close> or of the location.
\<close>

theorem escalation_takes_precedence_over_suppression:
  assumes "getCheckName Ctx (getID Info) \<noteq> []"
    and "treatAsError Ctx (getCheckName Ctx (getID Info))"
  shows "LevelAdjuster H (Some Ctx) Warning Info = Error"
  using assms by (simp add: LevelAdjuster_def Let_def)

theorem escalation_takes_precedence_over_suppression_witness:
  "getCheckName exCtx (getID exInfoR) \<noteq> [] \<and>
   treatAsError exCtx (getCheckName exCtx (getID exInfoR)) \<and>
   hasSourceManager exInfoR \<and> isInsideMainFile exH (getLocation exInfoR) \<and>
   shouldSuppressDiagnostic exH Warning exInfoR exCtx False \<and>
   LevelAdjuster exH (Some exCtx) Warning exInfoR = Error"
proof -
  have h1: "getCheckName exCtx (getID exInfoR) \<noteq> []"
    and h2: "treatAsError exCtx (getCheckName exCtx (getID exInfoR))"
    and s: "hasSourceManager exInfoR \<and> isInsideMainFile exH (getLocation exInfoR) \<and>
            shouldSuppressDiagnostic exH Warning exInfoR exCtx False"
    by (simp_all add: exCtx_def exInfoR_def exH_def)
  from escalation_takes_precedence_over_suppression[OF h1 h2, of exH] h1 h2 s
  show ?thesis by blast
qed

text \<open>
  Claim C6. A diagnostic of a named check that is not escalated becomes \<open>Ignored\<close>
  exactly when it has a source manager, lies inside the main file and
  \<open>shouldSuppressDiagnostic\<close>, asked not to follow macro expansions, says so; otherwise it
  keeps its level. No diagnostic outside the main file is demoted: its adjusted level is its
  own level or \<open>Error\<close>.
\<close>

theorem suppression_demotes_only_inside_main_file:
  "(getCheckName Ctx (getID Info) \<noteq> [] \<and>
    \<not> (DiagLevel = Warning \<and> treatAsError Ctx (getCheckName Ctx (getID Info))) \<longrightarrow>
      LevelAdjuster H (Some Ctx) DiagLevel Info =
        (if hasSourceManager Info \<and> isInsideMainFile H (getLocation Info) \<and>
            shouldSuppressDiagnostic H DiagLevel Info Ctx False
         then Ignored else DiagLevel)) \<and>
   (\<not> (hasSourceManager Info \<and> isInsideMainFile H (getLocation Info)) \<longrightarrow>
      LevelAdjuster H CTContext DiagLevel Info = DiagLevel \<or>
      LevelAdjuster H CTContext DiagLevel Info = Error)"
  by (cases CTContext) (auto simp: LevelAdjuster_def Let_def)

theorem suppression_demotes_only_inside_main_file_witness:
  "LevelAdjuster exH (Some exCtx) Warning exInfoS = Ignored \<and>
   LevelAdjuster exH (Some exCtx) Warning exInfoMacro = Warning \<and>
   LevelAdjuster exH (Some exCtx) Warning exInfoHeader = Warning"
proof -
  note t = suppression_demotes_only_inside_main_file
  from t[of exCtx exInfoS Warning exH] have "LevelAdjuster exH (Some exCtx) Warning exInfoS = Ignored"
    by (simp add: exCtx_def exInfoS_def exH_def)
  moreover from t[of exCtx exInfoMacro Warning exH]
  have "LevelAdjuster exH (Some exCtx) Warning exInfoMacro = Warning"
    by (simp add: exCtx_def exInfoMacro_def exH_def)
  moreover from t[of exCtx exInfoHeader Warning exH]
  have "LevelAdjuster exH (Some exCtx) Warning exInfoHeader = Warning"
    by (simp add: exCtx_def exInfoHeader_def exH_def)
  ultimately show ?thesis by blast
qed



text \<open>
  Claim C8. A build sends at most five queries to the symbol index, whatever the frontend
  reports. In a build that returns a result the queries are those for the first five
  unresolved symbols reported (none when no include fixer is set up); and an include fixer
  that has used up its limit answers a diagnostic with no fix and no query.
\<close>

theorem build_index_queries_bounded:
  "length (IndexQueries (snd (build FE H CI CIDiags Preamble Buffer Vfs Index Opts))) \<le> 5 \<and>
   (build FE H CI CIDiags Preamble Buffer Vfs Index Opts = (Returned (Some AST), Eff) \<longrightarrow>
      IndexQueries Eff =
        (if SuggestMissingIncludes Opts \<and> Index \<noteq> None \<and>
            getCurrentWorkingDirectory FE Vfs \<noteq> None
         then take 5 (symbolsOf ([(L, I). DiagnosticEv L I \<leftarrow> fst (Execute FE (AST_Clang AST))] @
                                 matchAST FE (AST_LocalTopLevelDecls AST)))
         else [])) \<and>
   (\<forall>F L I. IndexRequestLimit F \<le> IndexRequestCount F \<longrightarrow> IncludeFixer_fix F L I = ([], F))"
proof (intro conjI)
  let ?A = "LevelAdjuster H (Some (createContext FE (ClangTidyOpts Opts)))"
  show "length (IndexQueries (snd (build FE H CI CIDiags Preamble Buffer Vfs Index Opts))) \<le> 5"
  proof (cases "prepareCompilerInstance FE (CI\<lparr>DisableFree := False\<rparr>)
                (map_option PD_Preamble Preamble) Buffer Vfs")
    case None
    from build_prepare_failed[OF None] show ?thesis by (simp add: noEffects_def)
  next
    case p: (Some Clang0)
    show ?thesis
    proof (cases "BeginSourceFile FE Clang0 (MainInputFile Clang0)")
      case None
      from build_begin_failed[OF p None] show ?thesis by (simp add: noEffects_def)
    next
      case b: (Some Clang1)
      let ?C = "setupCallbacks (createChecks FE (ClangTidyOpts Opts)) Preamble Clang1"
      let ?st0 = "initialState FE Preamble
              (setupFixIncludes (getBufferName Buffer) Preamble Index Opts
                 (getCurrentWorkingDirectory FE Vfs))"
      obtain Events Err where e: "Execute FE ?C = (Events, Err)"
        by (cases "Execute FE ?C")
      obtain r st where run: "runEvents H ?A ?C Events ?st0 = (r, st)"
        by (cases "runEvents H ?A ?C Events ?st0")
      have "withinBudget (snd (runEvents H ?A ?C Events ?st0))"
        by (rule runEvents_budget) (rule initialState_budget)
      with run have w: "withinBudget st" by simp
      note s = build_started[OF p b e run, of CIDiags]
      show ?thesis
      proof (cases r)
        case AssertionFailed
        with s w show ?thesis by (simp add: effectsOf_budget)
      next
        case (Returned u)
        with s w show ?thesis
          by (simp add: assemble_result effectsOf_budget handleAll_budget)
      qed
    qed
  qed
next
  show "build FE H CI CIDiags Preamble Buffer Vfs Index Opts = (Returned (Some AST), Eff) \<longrightarrow>
      IndexQueries Eff =
        (if SuggestMissingIncludes Opts \<and> Index \<noteq> None \<and>
            getCurrentWorkingDirectory FE Vfs \<noteq> None
         then take 5 (symbolsOf ([(L, I). DiagnosticEv L I \<leftarrow> fst (Execute FE (AST_Clang AST))] @
                                 matchAST FE (AST_LocalTopLevelDecls AST)))
         else [])"
    by (intro impI) (rule build_Some_queries)
next
  show "\<forall>F L I. IndexRequestLimit F \<le> IndexRequestCount F \<longrightarrow> IncludeFixer_fix F L I = ([], F)"
    by (simp add: IncludeFixer_fix_def split: option.splits)
qed

theorem build_index_queries_bounded_witness:
  "\<exists>AST Eff. build exFE exH exCI [exCfgDiag] (Some exPreamble) exBuffer exVfsCached (Some exIndex)
       exOpts = (Returned (Some AST), Eff) \<and>
     length (symbolsOf ([(L, I). DiagnosticEv L I \<leftarrow> fst (Execute exFE (AST_Clang AST))] @
                        matchAST exFE (AST_LocalTopLevelDecls AST))) = 6 \<and>
     IndexQueries Eff = [''Foo'', ''Foo'', ''Foo'', ''Foo'', ''Foo''] \<and>
     IndexRequestLimit exSpentFixer \<le> IndexRequestCount exSpentFixer \<and>
     IncludeFixer_fix exSpentFixer Error exInfoUnknown = ([], exSpentFixer)"
proof -
  from ex_build_returns obtain AST Eff where
    b: "build exFE exH exCI [exCfgDiag] (Some exPreamble) exBuffer exVfsCached (Some exIndex)
          exOpts = (Returned (Some AST), Eff)"
    by blast
  note t = build_index_queries_bounded[of exFE exH exCI "[exCfgDiag]" "Some exPreamble" exBuffer
      exVfsCached "Some exIndex" exOpts AST Eff]
  have syms: "symbolsOf ([(L, I). DiagnosticEv L I \<leftarrow> fst (Execute exFE (AST_Clang AST))] @
                         matchAST exFE (AST_LocalTopLevelDecls AST)) =
              [''Foo'', ''Foo'', ''Foo'', ''Foo'', ''Foo'', ''Foo'']"
    by (simp add: symbolsOf_def ex_execute ex_matchAST exEvents_def exInfoR_def exInfoS_def
          exInfoUnknown_def exInfoHeader_def)
  have on: "SuggestMissingIncludes exOpts \<and> Some exIndex \<noteq> None \<and>
            getCurrentWorkingDirectory exFE exVfsCached \<noteq> None"
    by (simp add: exOpts_def exFE_def exVfsCached_def)
  from t b on have q: "IndexQueries Eff = [''Foo'', ''Foo'', ''Foo'', ''Foo'', ''Foo'']"
    by (simp add: syms)
  have h: "IndexRequestLimit exSpentFixer \<le> IndexRequestCount exSpentFixer"
    by (simp add: exSpentFixer_def)
  from t h have f: "IncludeFixer_fix exSpentFixer Error exInfoUnknown = ([], exSpentFixer)"
    by blast
  from syms have n: "length (symbolsOf ([(L, I). DiagnosticEv L I \<leftarrow> fst (Execute exFE (AST_Clang AST))] @
                        matchAST exFE (AST_LocalTopLevelDecls AST))) = 6"
    by simp
  show ?thesis
    by (rule exI[of _ AST], rule exI[of _ Eff]) (simp only: b n q h f simp_thms)
qed

text \<open>
  Claim C9. When the working directory cannot be set, \<^verbatim>\<open>buildAST\<close> logs it and returns
  what \<^verbatim>\<open>ParsedAST::build\<close> returns on the file system as it is then: the failure adds
  no way of returning nothing.
\<close>

theorem buildAST_proceeds_when_cwd_fails:
  assumes "setCurrentWorkingDirectory FE
             (case Preamble of
                None \<Rightarrow> PI_FS Inputs
              | Some P \<Rightarrow> if PD_StatCache P then getConsumingFS FE (PI_FS Inputs) else PI_FS Inputs)
             (PI_CompileCommandDirectory Inputs) = (True, Vfs2)"
  shows "fst (buildAST FE H FileNameRef Invocation CIDiags Inputs Preamble) =
           fst (build FE H Invocation CIDiags Preamble
                  \<lparr>getBuffer = PI_Contents Inputs, getBufferName = FileNameRef\<rparr>
                  Vfs2 (PI_Index Inputs) (PI_Opts Inputs)) \<and>
         Log (snd (buildAST FE H FileNameRef Invocation CIDiags Inputs Preamble)) =
           CouldntSetWorkingDirectory #
           Log (snd (build FE H Invocation CIDiags Preamble
                  \<lparr>getBuffer = PI_Contents Inputs, getBufferName = FileNameRef\<rparr>
                  Vfs2 (PI_Index Inputs) (PI_Opts Inputs)))"
  using assms by (simp add: buildAST_def Let_def split: prod.splits)

theorem buildAST_proceeds_when_cwd_fails_witness:
  "setCurrentWorkingDirectory exFE
     (case Some exPreamble of
        None \<Rightarrow> PI_FS exInputs
      | Some P \<Rightarrow> if PD_StatCache P then getConsumingFS exFE (PI_FS exInputs) else PI_FS exInputs)
     (PI_CompileCommandDirectory exInputs) = (True, exVfsCached) \<and>
   (\<exists>AST. fst (buildAST exFE exH ''main.cpp'' exCI [exCfgDiag] exInputs (Some exPreamble)) =
      Returned (Some AST)) \<and>
   Log (snd (buildAST exFE exH ''main.cpp'' exCI [exCfgDiag] exInputs (Some exPreamble))) =
     [CouldntSetWorkingDirectory, ExecuteFailed ''main.cpp'' ''fatal error'']"
proof -
  have h: "setCurrentWorkingDirectory exFE
     (case Some exPreamble of
        None \<Rightarrow> PI_FS exInputs
      | Some P \<Rightarrow> if PD_StatCache P then getConsumingFS exFE (PI_FS exInputs) else PI_FS exInputs)
     (PI_CompileCommandDirectory exInputs) = (True, exVfsCached)"
    by (simp add: exFE_def exPreamble_def exInputs_def exVfs_def exVfsCached_def)
  have buf: "\<lparr>getBuffer = PI_Contents exInputs, getBufferName = ''main.cpp''\<rparr> = exBuffer"
    by (simp add: exInputs_def exBuffer_def)
  have io: "PI_Index exInputs = Some exIndex" "PI_Opts exInputs = exOpts"
    by (simp_all add: exInputs_def)
  note t = buildAST_proceeds_when_cwd_fails[OF h, of exH "''main.cpp''" exCI "[exCfgDiag]",
      unfolded buf io]
  from ex_build_returns obtain AST Eff where
    b: "build exFE exH exCI [exCfgDiag] (Some exPreamble) exBuffer exVfsCached (Some exIndex)
          exOpts = (Returned (Some AST), Eff)"
    and lg: "Log Eff = [ExecuteFailed ''main.cpp'' ''fatal error'']"
    by blast
  from t b lg have "fst (buildAST exFE exH ''main.cpp'' exCI [exCfgDiag] exInputs (Some exPreamble)) =
      Returned (Some AST)"
    and "Log (snd (buildAST exFE exH ''main.cpp'' exCI [exCfgDiag] exInputs (Some exPreamble))) =
     [CouldntSetWorkingDirectory, ExecuteFailed ''main.cpp'' ''fatal error'']"
    by simp_all
  with h show ?thesis by blast
qed

text \<open>
  Claim C10. Every \<^verbatim>\<open>InclusionDirective\<close> that \<^verbatim>\<open>replay\<close> sends has the search path
  \<^verbatim>\<open>"SearchPath"\<close>, the relative path \<^verbatim>\<open>"RelPath"\<close> and no imported module; its file
  name, angled flag, file and file kind are those of one of the recorded includes.
\<close>

theorem replay_placeholder_paths:
  "\<forall>e \<in> set (snd (replay R)). \<forall>A. e = InclusionDirective A \<longrightarrow>
     SearchPath A = ''SearchPath'' \<and> RelativePath A = ''RelPath'' \<and> Imported A = None \<and>
     (\<exists>Inc \<in> set (MainFileIncludes (Includes_ref R)).
        (\<exists>Rest. drop_front (Written Inc) = Returned Rest \<and>
                drop_back Rest = Returned (FileName A)) \<and>
        FileName A = butlast (drop 1 (Written Inc)) \<and>
        IsAngled A = startswith (Written Inc) ''<'' \<and>
        File A = (if Resolved Inc \<noteq> [] then getFile (SM_ref R) (Resolved Inc) else None) \<and>
        FileType A = FileKind Inc)"
proof (intro ballI allI impI)
  fix e A
  assume e: "e \<in> set (snd (replay R))" and A: "e = InclusionDirective A"
  from e replayLoop_events_subset[of "SM_ref R" "MainFileIncludes (Includes_ref R)"]
  obtain Inc where Inc: "Inc \<in> set (MainFileIncludes (Includes_ref R))"
    and m: "e \<in> set (replayOne (SM_ref R) Inc)"
    by (auto simp: replay_def)
  have ok: "replays (SM_ref R) Inc"
  proof (rule ccontr)
    assume "\<not> replays (SM_ref R) Inc"
    from replayOne_not_replays[OF this] m show False by simp
  qed
  from replays_events[OF ok] obtain A' where
    body: "replayBody (SM_ref R) Inc =
             (Returned (), [InclusionDirective A', replayFollowUp (SM_ref R) Inc])"
    and f: "drop_front (Written Inc) = Returned (drop 1 (Written Inc))"
      "drop_back (drop 1 (Written Inc)) = Returned (FileName A')"
      "FileName A' = butlast (drop 1 (Written Inc))"
      "IsAngled A' = startswith (Written Inc) ''<''"
      "File A' = (if Resolved Inc \<noteq> [] then getFile (SM_ref R) (Resolved Inc) else None)"
      "SearchPath A' = ''SearchPath''" "RelativePath A' = ''RelPath''"
      "Imported A' = None" "FileType A' = FileKind Inc"
    by blast
  from m A body have "A = A'"
    using replayFollowUp_not_inclusion[of "SM_ref R" Inc A]
    by (auto simp: replayOne_def)
  with Inc f show "SearchPath A = ''SearchPath'' \<and> RelativePath A = ''RelPath'' \<and> Imported A = None \<and>
     (\<exists>Inc \<in> set (MainFileIncludes (Includes_ref R)).
        (\<exists>Rest. drop_front (Written Inc) = Returned Rest \<and>
                drop_back Rest = Returned (FileName A)) \<and>
        FileName A = butlast (drop 1 (Written Inc)) \<and>
        IsAngled A = startswith (Written Inc) ''<'' \<and>
        File A = (if Resolved Inc \<noteq> [] then getFile (SM_ref R) (Resolved Inc) else None) \<and>
        FileType A = FileKind Inc)"
    by blast
qed

theorem replay_placeholder_paths_witness:
  "\<exists>A. InclusionDirective A \<in> set (snd (replay exReplay)) \<and>
        SearchPath A = ''SearchPath'' \<and> RelativePath A = ''RelPath'' \<and> Imported A = None \<and>
        FileName A = ''a.h'' \<and> IsAngled A \<and> File A = Some (FileEntry ''/usr/include/a.h'') \<and>
        FileType A = C_System"
proof -
  from replays_events[OF ex_replays(1)] obtain A where
    body: "replayBody exSM exIncA = (Returned (), [InclusionDirective A, replayFollowUp exSM exIncA])"
    and f: "FileName A = butlast (drop 1 (Written exIncA))"
      "IsAngled A = startswith (Written exIncA) ''<''"
      "File A = (if Resolved exIncA \<noteq> [] then getFile exSM (Resolved exIncA) else None)"
      "FileType A = FileKind exIncA"
    by blast
  have m: "InclusionDirective A \<in> set (snd (replay exReplay))"
    by (simp add: replay_def exReplay_def ex_replayLoop replayOne_def body del: replayLoop.simps)
  from replay_placeholder_paths[rule_format, OF m refl]
  have "SearchPath A = ''SearchPath'' \<and> RelativePath A = ''RelPath'' \<and> Imported A = None"
    by blast
  moreover from f have "FileName A = ''a.h'' \<and> IsAngled A \<and>
      File A = Some (FileEntry ''/usr/include/a.h'') \<and> FileType A = C_System"
    by (simp add: exIncA_def exSM_def startswith_def)
  ultimately show ?thesis using m by blast
qed

end
